theory Spec2Isabelle
  imports Complex_Main "HOL-Library.Sublist" "HOL-Library.AList"
begin

section \<open>JavaScript strings\<close>

text \<open>
  A JavaScript string is modelled as a \<^typ>\<open>string\<close>; one \<^typ>\<open>char\<close> stands for one code
  unit below 256. Host names, header names and the encoded labels handled by the worker
  are ASCII, which is the range in which the character classes below are decided.
\<close>

definition isDigit :: "char \<Rightarrow> bool" where
  "isDigit c = (let n = (of_char c :: nat) in 48 \<le> n \<and> n \<le> 57)"

definition isAlpha :: "char \<Rightarrow> bool" where
  "isAlpha c = (let n = (of_char c :: nat) in (65 \<le> n \<and> n \<le> 90) \<or> (97 \<le> n \<and> n \<le> 122))"

text \<open>The class \<^verbatim>\<open>[a-zA-Z0-9-]\<close>.\<close>

definition isLabelChar :: "char \<Rightarrow> bool" where
  "isLabelChar c = (isAlpha c \<or> isDigit c \<or> c = CHR ''-'')"

text \<open>The class \<^verbatim>\<open>[a-zA-Z0-9.-]\<close>.\<close>

definition isHostChar :: "char \<Rightarrow> bool" where
  "isHostChar c = (isAlpha c \<or> isDigit c \<or> c = CHR ''.'' \<or> c = CHR ''-'')"

text \<open>White space and line terminators removed by \<^verbatim>\<open>String.prototype.trim\<close> (below 256).\<close>

definition isSpace :: "char \<Rightarrow> bool" where
  "isSpace c = ((of_char c :: nat) \<in> {9, 10, 11, 12, 13, 32, 160})"

definition trim :: "string \<Rightarrow> string" where
  "trim s = rev (dropWhile isSpace (rev (dropWhile isSpace s)))"

definition toLowerChar :: "char \<Rightarrow> char" where
  "toLowerChar c =
     (case map_of (zip ''ABCDEFGHIJKLMNOPQRSTUVWXYZ'' ''abcdefghijklmnopqrstuvwxyz'') c of
        Some l \<Rightarrow> l
      | None \<Rightarrow> c)"

definition toLowerCase :: "string \<Rightarrow> string" where
  "toLowerCase s = map toLowerChar s"

definition startsWith :: "string \<Rightarrow> string \<Rightarrow> bool" where
  "startsWith s p = prefix p s"

definition endsWith :: "string \<Rightarrow> string \<Rightarrow> bool" where
  "endsWith s p = suffix p s"

fun includes_js :: "string \<Rightarrow> string \<Rightarrow> bool" where
  "includes_js [] sub = (sub = [])"
| "includes_js (c # cs) sub = (prefix sub (c # cs) \<or> includes_js cs sub)"

text \<open>
  \<^verbatim>\<open>s.split(sep)\<close> for a non-empty separator: the separator is searched from the left,
  matches do not overlap, and the result always has at least one element
  (\<^verbatim>\<open>"".split("--")\<close> is \<^verbatim>\<open>[""]\<close>).
\<close>

function split_js :: "string \<Rightarrow> string \<Rightarrow> string list" where
  "split_js sep [] = [[]]"
| "split_js sep (c # cs) =
     (if sep \<noteq> [] \<and> prefix sep (c # cs)
      then [] # split_js sep (drop (length sep) (c # cs))
      else (case split_js sep cs of [] \<Rightarrow> [[c]] | p # ps \<Rightarrow> (c # p) # ps))"
  by pat_completeness auto
termination
  by (relation "measure (\<lambda>(sep, s). length s)") (auto simp: neq_Nil_conv)

text \<open>\<^verbatim>\<open>parts.join(sep)\<close>.\<close>

fun join_js :: "string \<Rightarrow> string list \<Rightarrow> string" where
  "join_js sep [] = []"
| "join_js sep [p] = p"
| "join_js sep (p # q # ps) = p @ sep @ join_js sep (q # ps)"

text \<open>\<^verbatim>\<open>hostname.replace(/\./g, '--')\<close>: every dot becomes two hyphens.\<close>

definition replace_dots :: "string \<Rightarrow> string" where
  "replace_dots s = concat (map (\<lambda>c. if c = CHR ''.'' then ''--'' else [c]) s)"

text \<open>
  \<^verbatim>\<open>hostname.replace(/\\./g, '--')\<close>, as \<^verbatim>\<open>rewriteUrl\<close> writes it: the pattern is a
  backslash followed by any character other than a line terminator.
\<close>

fun replace_backslash_any :: "string \<Rightarrow> string" where
  "replace_backslash_any [] = []"
| "replace_backslash_any [c] = [c]"
| "replace_backslash_any (c # d # cs) =
     (if c = CHR 0x5C \<and> d \<noteq> CHR 0x0A \<and> d \<noteq> CHR 0x0D
      then ''--'' @ replace_backslash_any cs
      else c # replace_backslash_any (d # cs))"

text \<open>\<^verbatim>\<open>Number(s)\<close> on a string of decimal digits.\<close>

definition Number :: "string \<Rightarrow> nat" where
  "Number s = foldl (\<lambda>acc c. 10 * acc + ((of_char c :: nat) - 48)) 0 s"

section \<open>Regular expressions of the worker\<close>

text \<open>\<^verbatim>\<open>/^[a-zA-Z0-9-]+$/\<close>\<close>

definition re_label :: "string \<Rightarrow> bool" where
  "re_label s = (s \<noteq> [] \<and> list_all isLabelChar s)"

text \<open>\<^verbatim>\<open>/^[a-zA-Z0-9.-]+$/\<close>\<close>

definition re_host :: "string \<Rightarrow> bool" where
  "re_host s = (s \<noteq> [] \<and> list_all isHostChar s)"

text \<open>
  \<^verbatim>\<open>/^(\d{1,3}\.){3}\d{1,3}$/\<close>: digits contain no dot, so the string matches exactly when
  splitting it on the dot gives four groups of one to three digits.
\<close>

definition re_ipv4 :: "string \<Rightarrow> bool" where
  "re_ipv4 s =
     (let ps = split_js ''.'' s
      in length ps = 4 \<and> list_all (\<lambda>p. 1 \<le> length p \<and> length p \<le> 3 \<and> list_all isDigit p) ps)"

text \<open>
  \<^verbatim>\<open>/^[a-zA-Z0-9.-]+\.[a-zA-Z]{2,}$/\<close>: some dot at index \<open>i\<close> has a non-empty prefix in the
  class before it and at least two letters, and nothing else, after it.
\<close>

definition re_standard_domain :: "string \<Rightarrow> bool" where
  "re_standard_domain s =
     list_ex (\<lambda>i. s ! i = CHR ''.'' \<and> re_host (take i s)
                 \<and> 2 \<le> length (drop (Suc i) s) \<and> list_all isAlpha (drop (Suc i) s))
       [0..<length s]"

text \<open>\<^verbatim>\<open>/^https?:\/\//\<close> (case-sensitive) and \<^verbatim>\<open>/^https?:\/\//i\<close>.\<close>

definition re_http_prefix :: "string \<Rightarrow> bool" where
  "re_http_prefix s = (prefix ''http://'' s \<or> prefix ''https://'' s)"

definition re_http_prefix_i :: "string \<Rightarrow> bool" where
  "re_http_prefix_i s = re_http_prefix (toLowerCase (take 8 s))"

section \<open>Configuration\<close>

definition REQUEST_TIMEOUT :: nat where
  "REQUEST_TIMEOUT = 45000"

definition CORS_MAX_AGE :: string where
  "CORS_MAX_AGE = ''86400''"

definition ALLOWED_METHODS :: "string list" where
  "ALLOWED_METHODS = [''GET'', ''POST'', ''PUT'', ''DELETE'', ''PATCH'', ''HEAD'', ''OPTIONS'']"

definition BLOCKED_HEADERS :: "string list" where
  "BLOCKED_HEADERS =
     [''cf-connecting-ip'', ''cf-ipcountry'', ''cf-ray'', ''cf-visitor'', ''cf-request-id'',
      ''cf-warp-tag-id'', ''cf-worker'', ''x-forwarded-proto'', ''x-forwarded-for'',
      ''x-forwarded-host'', ''x-forwarded-port'', ''x-real-ip'', ''x-original-forwarded-for'',
      ''x-cluster-client-ip'', ''x-forwarded'', ''forwarded-for'', ''forwarded'', ''via'',
      ''x-proxy-authorization'', ''proxy-authorization'', ''proxy-connection'',
      ''true-client-ip'', ''x-client-ip'', ''client-ip'', ''x-originating-ip'', ''x-remote-ip'',
      ''x-remote-addr'', ''remote-addr'']"

section \<open>The subdomain codec\<close>

definition isValidSubdomainFormat :: "string \<Rightarrow> bool" where
  "isValidSubdomainFormat subdomain =
     (if startsWith subdomain ''-'' \<or> endsWith subdomain ''-'' then False
      else let parts = split_js ''--'' subdomain
           in if length parts < 2 then False
              else list_all (\<lambda>part. 0 < length part \<and> re_label part
                                \<and> \<not> startsWith part ''-'' \<and> \<not> endsWith part ''-'') parts)"

text \<open>\<^verbatim>\<open>null\<close> is \<^term>\<open>None\<close>. \<^verbatim>\<open>parts[0]\<close> exists since a split is never empty.\<close>

definition extractSubdomain :: "string \<Rightarrow> string option" where
  "extractSubdomain hostname =
     (let parts = split_js ''.'' hostname
      in if length parts < 2 then None
         else let subdomain = hd parts
              in if \<not> re_label subdomain then None
                 else if \<not> isValidSubdomainFormat subdomain then None
                 else Some subdomain)"

text \<open>
  The argument is a string here; on \<^verbatim>\<open>null\<close> the source returns \<^verbatim>\<open>null\<close> by its first
  guard, which is how the composed calls below chain (\<^const>\<open>Option.bind\<close>).
\<close>

definition convertSubdomainToUrl :: "string \<Rightarrow> string option" where
  "convertSubdomainToUrl subdomain0 =
     (if subdomain0 = [] then None
      else let subdomain = trim subdomain0
           in if \<not> re_label subdomain then None
              else let parts = split_js ''--'' subdomain
                   in if length parts < 2 then None
                      else if list_ex (\<lambda>part. part = [] \<or> length part = 0) parts then None
                      else Some (join_js ''.'' parts))"

definition convertUrlToSubdomain :: "string \<Rightarrow> string option" where
  "convertUrlToSubdomain hostname =
     (if hostname = [] then None
      else if \<not> re_host hostname then None
      else Some (replace_dots hostname))"

definition isStandardDomain :: "string \<Rightarrow> bool" where
  "isStandardDomain hostname =
     (re_standard_domain hostname \<and> includes_js hostname ''.'' \<and> \<not> includes_js hostname ''--'')"

section \<open>Platform objects: URL, Headers, JSON values\<close>

text \<open>
  The fields of a \<^verbatim>\<open>URL\<close> object that the worker reads or assigns. \<^verbatim>\<open>protocol\<close> carries
  its colon, \<^verbatim>\<open>search\<close> its question mark and \<^verbatim>\<open>hash\<close> its number sign, as the platform
  reports them.
\<close>

record url =
  protocol :: string
  hostname :: string
  port :: string
  pathname :: string
  search :: string
  hash :: string

definition host :: "url \<Rightarrow> string" where
  "host u = hostname u @ (if port u = [] then [] else '':'' @ port u)"

definition origin :: "url \<Rightarrow> string" where
  "origin u = protocol u @ ''//'' @ host u"

definition toString :: "url \<Rightarrow> string" where
  "toString u = protocol u @ ''//'' @ host u @ pathname u @ search u @ hash u"

text \<open>
  Characters a host may not contain (the forbidden host code points, the percent sign,
  controls and everything outside ASCII, which the platform would send through IDNA).
\<close>

definition forbiddenHostChar :: "char \<Rightarrow> bool" where
  "forbiddenHostChar c =
     (let n = (of_char c :: nat)
      in n \<le> 32 \<or> n \<ge> 127 \<or> c \<in> set [CHR ''#'', CHR ''%'', CHR ''/'', CHR '':'', CHR ''<'',
           CHR ''>'', CHR ''?'', CHR ''@'', CHR ''['', CHR 0x5C, CHR '']'', CHR ''^'', CHR ''|''])"

definition validHost :: "string \<Rightarrow> bool" where
  "validHost h = (h \<noteq> [] \<and> list_all (\<lambda>c. \<not> forbiddenHostChar c) h)"

definition isPathEnd :: "char \<Rightarrow> bool" where
  "isPathEnd c = (c = CHR ''?'' \<or> c = CHR ''#'')"

definition isAuthorityEnd :: "char \<Rightarrow> bool" where
  "isAuthorityEnd c = (c = CHR ''/'' \<or> c = CHR ''?'' \<or> c = CHR ''#'')"

text \<open>
  \<^verbatim>\<open>new URL(s)\<close> on the URLs the worker meets: an absolute \<^verbatim>\<open>http\<close> or \<^verbatim>\<open>https\<close> URL
  written with \<^verbatim>\<open>//\<close>, a domain-name host, an optional numeric port, then path, query and
  fragment. \<^term>\<open>None\<close> is the \<^verbatim>\<open>TypeError\<close> the constructor throws. The host is
  lower-cased, an empty path is \<^verbatim>\<open>/\<close>, a lone \<^verbatim>\<open>?\<close> or \<^verbatim>\<open>#\<close> reads as empty, the scheme's
  default port is dropped. Credentials, IP-address hosts, percent-encoding and
  dot-segment removal are outside this model and no statement below relies on them.
\<close>

definition URL_parse :: "string \<Rightarrow> url option" where
  "URL_parse s =
     (let l = toLowerCase (take 8 s);
          proto = (if prefix ''https://'' l then ''https:''
                   else if prefix ''http://'' l then ''http:'' else [])
      in if proto = [] then None
         else let rest = drop (length proto + 2) s;
                  authority = takeWhile (\<lambda>c. \<not> isAuthorityEnd c) rest;
                  after = dropWhile (\<lambda>c. \<not> isAuthorityEnd c) rest;
                  h = toLowerCase (takeWhile (\<lambda>c. c \<noteq> CHR '':'') authority);
                  p = drop 1 (dropWhile (\<lambda>c. c \<noteq> CHR '':'') authority);
                  path = takeWhile (\<lambda>c. \<not> isPathEnd c) after;
                  qf = dropWhile (\<lambda>c. \<not> isPathEnd c) after;
                  q = takeWhile (\<lambda>c. c \<noteq> CHR ''#'') qf;
                  f = dropWhile (\<lambda>c. c \<noteq> CHR ''#'') qf
              in if \<not> validHost h \<or> \<not> list_all isDigit p \<or> 65535 < Number p then None
                 else Some \<lparr> protocol = proto, hostname = h,
                             port = (if (proto = ''https:'' \<and> Number p = 443 \<and> p \<noteq> [])
                                        \<or> (proto = ''http:'' \<and> Number p = 80 \<and> p \<noteq> []) then [] else p),
                             pathname = (if path = [] then ''/'' else path),
                             search = (if q = ''?'' then [] else q),
                             hash = (if f = ''#'' then [] else f) \<rparr>)"

text \<open>
  \<^verbatim>\<open>new URL(s, base)\<close>: an absolute \<^verbatim>\<open>s\<close> is parsed alone; a protocol-relative one takes
  the base's scheme; anything else is resolved against the base's origin, which is the
  only base the worker passes (its path is \<^verbatim>\<open>/\<close>).
\<close>

definition URL_parse_base :: "string \<Rightarrow> string \<Rightarrow> url option" where
  "URL_parse_base s base =
     (case URL_parse base of
        None \<Rightarrow> None
      | Some b \<Rightarrow>
          if re_http_prefix_i s then URL_parse s
          else if prefix ''//'' s then URL_parse (protocol b @ s)
          else if prefix ''/'' s then URL_parse (origin b @ s)
          else URL_parse (origin b @ ''/'' @ s))"

text \<open>
  Assigning \<^verbatim>\<open>url.hostname\<close>: a value that is not a valid host leaves the URL as it was.
  Assigning \<^verbatim>\<open>url.protocol\<close> between \<^verbatim>\<open>http:\<close> and \<^verbatim>\<open>https:\<close> replaces the scheme.
\<close>

definition set_hostname :: "url \<Rightarrow> string \<Rightarrow> url" where
  "set_hostname u h = (if validHost h then u\<lparr>hostname := toLowerCase h\<rparr> else u)"

definition set_protocol :: "url \<Rightarrow> string \<Rightarrow> url" where
  "set_protocol u p = (if p = ''http:'' \<or> p = ''https:'' then u\<lparr>protocol := p\<rparr> else u)"

text \<open>
  A \<^verbatim>\<open>Headers\<close> object: names are compared without regard to case, which the platform
  does by storing them lower-cased; \<^verbatim>\<open>set\<close> replaces, \<^verbatim>\<open>get\<close> of a missing name is \<^verbatim>\<open>null\<close>.
\<close>

type_synonym headers = "(string \<times> string) list"

definition headers_get :: "headers \<Rightarrow> string \<Rightarrow> string option" where
  "headers_get h name = map_of h (toLowerCase name)"

definition headers_has :: "headers \<Rightarrow> string \<Rightarrow> bool" where
  "headers_has h name = (map_of h (toLowerCase name) \<noteq> None)"

definition headers_set :: "headers \<Rightarrow> string \<Rightarrow> string \<Rightarrow> headers" where
  "headers_set h name v = AList.update (toLowerCase name) v h"

definition headers_delete :: "headers \<Rightarrow> string \<Rightarrow> headers" where
  "headers_delete h name = AList.delete (toLowerCase name) h"

definition headers_entries :: "headers \<Rightarrow> (string \<times> string) list" where
  "headers_entries h = h"

text \<open>\<^verbatim>\<open>new Headers({...})\<close> and the copy \<^verbatim>\<open>new Response(_, {headers: h})\<close> makes.\<close>

definition new_Headers :: "(string \<times> string) list \<Rightarrow> headers" where
  "new_Headers init = foldl (\<lambda>h (k, v). headers_set h k v) [] init"

text \<open>
  JSON data. A number is the value of the parsed double; an object lists its own
  properties in enumeration order.
\<close>

datatype json =
    JNull
  | JBool bool
  | JNum rat
  | JStr string
  | JArr "json list"
  | JObj "(string \<times> json) list"

text \<open>A thrown JavaScript error: its \<^verbatim>\<open>name\<close> and its \<^verbatim>\<open>message\<close>.\<close>

datatype error = JsError (name: string) (message: string)

text \<open>
  A body is absent, text, the serialisation of a JSON value, or the landing page markup
  \<^verbatim>\<open>getProxyPageHTML(hostname)\<close>, which is static presentation and stays symbolic.
\<close>

datatype body = BNull | BText string | BJson json | BPage string

record response =
  status :: nat
  statusText :: string
  resp_headers :: headers
  resp_body :: body

text \<open>
  An inbound request. \<^verbatim>\<open>req_json\<close> is what \<^verbatim>\<open>await request.json()\<close> gives: the parsed
  body, or the error it throws.
\<close>

record request =
  req_method :: string
  req_url :: string
  req_headers :: headers
  req_body :: body
  req_json :: "error + json"

record fetch_options =
  fo_method :: string
  fo_headers :: headers
  fo_redirect :: string
  fo_timeout :: nat
  fo_body :: "body option"

text \<open>
  What the worker cannot compute: the upstream (\<^verbatim>\<open>fetch\<close>, which resolves to a response
  or rejects with an error) and the clock read by \<^verbatim>\<open>new Date().toISOString()\<close>.
\<close>

record env =
  fetch :: "string \<Rightarrow> fetch_options \<Rightarrow> error + response"
  now :: string

section \<open>Responses built by the worker\<close>

definition addCorsHeaders :: "headers \<Rightarrow> headers" where
  "addCorsHeaders headers =
     (let h1 = headers_set headers ''Access-Control-Allow-Origin'' ''*'';
          h2 = headers_set h1 ''Access-Control-Allow-Methods'' (join_js '', '' ALLOWED_METHODS);
          h3 = headers_set h2 ''Access-Control-Allow-Headers''
                 ''Content-Type, Authorization, X-Requested-With, Accept, Origin'';
          h4 = headers_set h3 ''Access-Control-Max-Age'' CORS_MAX_AGE
      in headers_set h4 ''Access-Control-Expose-Headers'' ''Content-Length, Content-Type'')"

definition createErrorResponse :: "env \<Rightarrow> string \<Rightarrow> nat \<Rightarrow> response" where
  "createErrorResponse e msg st =
     (let errorBody = BJson (JObj [(''error'', JStr msg), (''status'', JNum (of_nat st)),
                                   (''timestamp'', JStr (now e))]);
          headers = new_Headers [(''Content-Type'', ''application/json; charset=utf-8'')]
      in \<lparr> status = st, statusText = [], resp_headers = addCorsHeaders headers,
           resp_body = errorBody \<rparr>)"

definition headersToRemove :: "string list" where
  "headersToRemove =
     [''server'', ''x-powered-by'', ''x-aspnet-version'', ''x-runtime'', ''x-version'',
      ''content-security-policy'', ''x-frame-options'', ''x-content-type-options'']"

definition createProxyResponse :: "response \<Rightarrow> response" where
  "createProxyResponse originalResponse =
     (let response = \<lparr> status = status originalResponse,
                        statusText = statusText originalResponse,
                        resp_headers = new_Headers (headers_entries (resp_headers originalResponse)),
                        resp_body = resp_body originalResponse \<rparr>;
          h = addCorsHeaders (resp_headers response)
      in response\<lparr> resp_headers := foldl headers_delete h headersToRemove \<rparr>)"

definition handleOptions :: "request \<Rightarrow> response" where
  "handleOptions request =
     (let h0 = addCorsHeaders [];
          h1 = (case headers_get (req_headers request) ''Access-Control-Request-Headers'' of
                  Some requestHeaders \<Rightarrow>
                    if requestHeaders \<noteq> []
                    then headers_set h0 ''Access-Control-Allow-Headers'' requestHeaders else h0
                | None \<Rightarrow> h0);
          h2 = (case headers_get (req_headers request) ''Access-Control-Request-Method'' of
                  Some requestMethod \<Rightarrow>
                    if requestMethod \<noteq> [] \<and> requestMethod \<in> set ALLOWED_METHODS
                    then headers_set h1 ''Access-Control-Allow-Methods''
                           (join_js '', '' ALLOWED_METHODS)
                    else h1
                | None \<Rightarrow> h1)
      in \<lparr> status = 204, statusText = [], resp_headers = h2, resp_body = BNull \<rparr>)"

text \<open>
  \<^verbatim>\<open>handleRedirect\<close>: every failure inside the \<^verbatim>\<open>try\<close> (an unparsable \<^verbatim>\<open>Location\<close> or
  request URL) falls through to \<^verbatim>\<open>createProxyResponse\<close>.
\<close>

definition handleRedirect :: "response \<Rightarrow> request \<Rightarrow> response" where
  "handleRedirect response originalRequest =
     (case headers_get (resp_headers response) ''Location'' of
        None \<Rightarrow> createProxyResponse response
      | Some location \<Rightarrow>
          if location = [] then createProxyResponse response
          else
            (case URL_parse location of
               None \<Rightarrow> createProxyResponse response
             | Some redirectUrl \<Rightarrow>
                 (case URL_parse (req_url originalRequest) of
                    None \<Rightarrow> createProxyResponse response
                  | Some originalUrl \<Rightarrow>
                      if isStandardDomain (hostname redirectUrl) then
                        (case convertUrlToSubdomain (hostname redirectUrl) of
                           None \<Rightarrow> createProxyResponse response
                         | Some convertedSubdomain \<Rightarrow>
                             let originalHostParts = split_js ''.'' (hostname originalUrl);
                                 proxyDomain = join_js ''.'' (drop 1 originalHostParts);
                                 redirectUrl' = set_hostname redirectUrl
                                                  (convertedSubdomain @ ''.'' @ proxyDomain);
                                 h = headers_set
                                       (new_Headers (headers_entries (resp_headers response)))
                                       ''Location'' (toString redirectUrl')
                             in \<lparr> status = status response, statusText = statusText response,
                                  resp_headers = addCorsHeaders h,
                                  resp_body = resp_body response \<rparr>)
                      else createProxyResponse response)))"

section \<open>Outbound request headers\<close>

definition cleanRequestHeaders :: "headers \<Rightarrow> url \<Rightarrow> headers" where
  "cleanRequestHeaders originalHeaders targetUrl =
     (let h0 = foldl (\<lambda>cleanedHeaders (key, v).
                        let lowerKey = toLowerCase key
                        in if lowerKey \<notin> set BLOCKED_HEADERS
                           then headers_set cleanedHeaders key v else cleanedHeaders)
                 [] (headers_entries originalHeaders);
          h1 = headers_set h0 ''Host'' (hostname targetUrl);
          h2 = (if headers_has originalHeaders ''Origin''
                then headers_set h1 ''Origin'' (origin targetUrl) else h1);
          h3 = (if headers_has originalHeaders ''Referer''
                then (case Option.bind (headers_get originalHeaders ''Referer'') URL_parse of
                        Some refererUrl \<Rightarrow>
                          headers_set h2 ''Referer''
                            (toString (set_protocol (set_hostname refererUrl (hostname targetUrl))
                                         (protocol targetUrl)))
                      | None \<Rightarrow> headers_delete h2 ''Referer'')
                else h2);
          h4 = (if \<not> headers_has h3 ''User-Agent''
                then headers_set h3 ''User-Agent''
                  ''Mozilla/5.0 (Windows NT 10.0; Win64; x64) AppleWebKit/537.36 (KHTML, like Gecko) Chrome/120.0.0.0 Safari/537.36''
                else h3);
          h5 = (if \<not> headers_has h4 ''Accept''
                then headers_set h4 ''Accept''
                  ''text/html,application/xhtml+xml,application/xml;q=0.9,image/webp,*/*;q=0.8''
                else h4);
          h6 = (if \<not> headers_has h5 ''Accept-Language''
                then headers_set h5 ''Accept-Language'' ''en-US,en;q=0.5'' else h5)
      in if \<not> headers_has h6 ''Accept-Encoding''
         then headers_set h6 ''Accept-Encoding'' ''gzip, deflate, br'' else h6)"

section \<open>Dispatch\<close>

definition buildTargetUrl :: "string \<Rightarrow> url \<Rightarrow> error + url" where
  "buildTargetUrl subdomain originalUrl =
     (case convertSubdomainToUrl subdomain of
        None \<Rightarrow> Inl (JsError ''Error'' ''Invalid subdomain format'')
      | Some targetDomain \<Rightarrow>
          (case URL_parse (''https://'' @ targetDomain) of
             None \<Rightarrow> Inl (JsError ''TypeError'' ''Invalid URL'')
           | Some targetUrl \<Rightarrow>
               Inr (targetUrl\<lparr> pathname := pathname originalUrl, search := search originalUrl \<rparr>)))"

text \<open>
  The script declares \<^verbatim>\<open>proxyRequest\<close> twice at top level (lines 120 and 756). Function
  declarations are bound when the script is instantiated, in source order, so every call
  reaches the later declaration, which is the one embedded here. Errors other than the
  timeout leave the function (\<^term>\<open>Inl\<close>).
\<close>

definition requestOptions :: "request \<Rightarrow> url \<Rightarrow> fetch_options" where
  "requestOptions originalRequest targetUrl =
     \<lparr> fo_method = req_method originalRequest,
       fo_headers = cleanRequestHeaders (req_headers originalRequest) targetUrl,
       fo_redirect = ''manual'',
       fo_timeout = REQUEST_TIMEOUT,
       fo_body = (if req_method originalRequest \<notin> set [''GET'', ''HEAD'']
                  then Some (req_body originalRequest) else None) \<rparr>"

definition proxyRequest :: "env \<Rightarrow> request \<Rightarrow> url \<Rightarrow> error + response" where
  "proxyRequest e originalRequest targetUrl =
     (case fetch e (toString targetUrl) (requestOptions originalRequest targetUrl) of
        Inr response \<Rightarrow>
          if 300 \<le> status response \<and> status response < 400
          then Inr (handleRedirect response originalRequest)
          else Inr (createProxyResponse response)
      | Inl err \<Rightarrow>
          if name err = ''TimeoutError'' then Inr (createErrorResponse e ''Request timeout'' 504)
          else Inl err)"

section \<open>Link generation\<close>

definition isPublicUrl :: "url \<Rightarrow> bool" where
  "isPublicUrl u =
     (let h = toLowerCase (hostname u)
      in if re_ipv4 h \<and>
            (let parts = map Number (split_js ''.'' h)
             in parts ! 0 = 10
                \<or> (parts ! 0 = 172 \<and> 16 \<le> parts ! 1 \<and> parts ! 1 \<le> 31)
                \<or> (parts ! 0 = 192 \<and> parts ! 1 = 168)
                \<or> parts ! 0 = 127
                \<or> (parts ! 0 = 169 \<and> parts ! 1 = 254))
         then False
         else if h \<in> set [''localhost'', ''127.0.0.1'', ''::1''] then False
         else True)"

text \<open>
  JavaScript truthiness of \<^verbatim>\<open>body.url\<close>; \<^term>\<open>None\<close> is \<^verbatim>\<open>undefined\<close>.
\<close>

fun truthy :: "json option \<Rightarrow> bool" where
  "truthy None = False"
| "truthy (Some JNull) = False"
| "truthy (Some (JBool b)) = b"
| "truthy (Some (JNum x)) = (x \<noteq> 0)"
| "truthy (Some (JStr s)) = (s \<noteq> [])"
| "truthy (Some (JArr xs)) = True"
| "truthy (Some (JObj kvs)) = True"

fun normalizeUrl :: "json option \<Rightarrow> error + string" where
  "normalizeUrl (Some (JStr url0)) =
     (if url0 = [] then Inl (JsError ''Error'' ''Invalid URL'')
      else let u = trim url0
           in if re_http_prefix_i u then Inr u
              else if startsWith u ''//'' then Inr (''https:'' @ u)
              else Inr (''https://'' @ u))"
| "normalizeUrl v = Inl (JsError ''Error'' ''Invalid URL'')"

text \<open>
  Reading \<^verbatim>\<open>body.url\<close>: a property of \<^verbatim>\<open>null\<close> throws, an object gives its entry, any other
  JSON value has no such property.
\<close>

fun get_url_property :: "json \<Rightarrow> error + json option" where
  "get_url_property JNull = Inl (JsError ''TypeError'' ''Cannot read properties of null'')"
| "get_url_property (JObj kvs) = Inr (map_of kvs ''url'')"
| "get_url_property v = Inr None"

definition handleGenerateApi :: "env \<Rightarrow> request \<Rightarrow> response" where
  "handleGenerateApi e request =
     (if req_method request \<noteq> ''POST'' then createErrorResponse e ''Method not allowed'' 405
      else
        (case req_json request of
           Inl err \<Rightarrow> createErrorResponse e ''Invalid request body'' 400
         | Inr body \<Rightarrow>
             (case get_url_property body of
                Inl err \<Rightarrow> createErrorResponse e ''Invalid request body'' 400
              | Inr targetUrl0 \<Rightarrow>
                  if \<not> truthy targetUrl0 then createErrorResponse e ''URL is required'' 400
                  else
                    (case normalizeUrl targetUrl0 of
                       Inl err \<Rightarrow> createErrorResponse e ''Invalid request body'' 400
                     | Inr targetUrl \<Rightarrow>
                         (case URL_parse targetUrl of
                            None \<Rightarrow> createErrorResponse e ''Invalid URL format'' 400
                          | Some parsedUrl \<Rightarrow>
                              if protocol parsedUrl \<notin> set [''http:'', ''https:'']
                              then createErrorResponse e
                                     ''Only HTTP and HTTPS URLs are supported'' 400
                              else if \<not> isPublicUrl parsedUrl
                              then createErrorResponse e
                                     ''Private network URLs are not allowed'' 403
                              else
                                (case URL_parse (req_url request) of
                                   None \<Rightarrow> createErrorResponse e ''Invalid request body'' 400
                                 | Some originalUrl \<Rightarrow>
                                     let proxySubdomain =
                                           (case convertUrlToSubdomain (hostname parsedUrl) of
                                              Some sub \<Rightarrow> sub | None \<Rightarrow> ''null'');
                                         proxyDomain =
                                           join_js ''.'' (drop 1 (split_js ''.'' (hostname originalUrl)));
                                         proxyUrl = ''https://'' @ proxySubdomain @ ''.'' @ proxyDomain
                                                      @ pathname parsedUrl @ search parsedUrl
                                     in \<lparr> status = 200, statusText = [],
                                          resp_headers = new_Headers
                                            [(''Content-Type'', ''application/json; charset=utf-8''),
                                             (''Access-Control-Allow-Origin'', ''*'')],
                                          resp_body = BJson (JObj
                                            [(''success'', JBool True),
                                             (''originalUrl'', JStr targetUrl),
                                             (''proxyUrl'', JStr proxyUrl)]) \<rparr>))))))"

definition handleProxyPage :: "env \<Rightarrow> request \<Rightarrow> error + response" where
  "handleProxyPage e request =
     (case URL_parse (req_url request) of
        None \<Rightarrow> Inl (JsError ''TypeError'' ''Invalid URL'')
      | Some u \<Rightarrow>
          if pathname u = ''/api/generate'' then Inr (handleGenerateApi e request)
          else Inr \<lparr> status = 200, statusText = [],
                     resp_headers = new_Headers
                       [(''Content-Type'', ''text/html; charset=utf-8''),
                        (''Cache-Control'', ''public, max-age=3600''),
                        (''X-Content-Type-Options'', ''nosniff''),
                        (''X-Frame-Options'', ''DENY''),
                        (''X-XSS-Protection'', ''1; mode=block'')],
                     resp_body = BPage (hostname u) \<rparr>)"

text \<open>
  \<^verbatim>\<open>handleRequest\<close>: the body of the \<^verbatim>\<open>try\<close>, then the \<^verbatim>\<open>catch\<close> that turns whatever was
  thrown into a 500 carrying the error's message.
\<close>

definition handleRequest_try :: "env \<Rightarrow> request \<Rightarrow> error + response" where
  "handleRequest_try e request =
     (case URL_parse (req_url request) of
        None \<Rightarrow> Inl (JsError ''TypeError'' ''Invalid URL'')
      | Some u \<Rightarrow>
          let hostParts = split_js ''.'' (hostname u)
          in if hd hostParts = ''proxy'' \<or> hd hostParts = ''proxy--''
             then handleProxyPage e request
             else
               (case extractSubdomain (hostname u) of
                  None \<Rightarrow> Inr (createErrorResponse e ''Invalid subdomain format'' 400)
                | Some subdomain \<Rightarrow>
                    if req_method request \<notin> set ALLOWED_METHODS
                    then Inr (createErrorResponse e ''Method not allowed'' 405)
                    else if req_method request = ''OPTIONS'' then Inr (handleOptions request)
                    else
                      (case buildTargetUrl subdomain u of
                         Inl err \<Rightarrow> Inl err
                       | Inr targetUrl \<Rightarrow> proxyRequest e request targetUrl)))"

definition handleRequest :: "env \<Rightarrow> request \<Rightarrow> response" where
  "handleRequest e request =
     (case handleRequest_try e request of
        Inr response \<Rightarrow> response
      | Inl err \<Rightarrow> createErrorResponse e (message err) 500)"

section \<open>URL rewriting inside JSON payloads\<close>

text \<open>
  The CDN patterns are written \<^verbatim>\<open>/\\.cloudflare\\.com$/\<close> and so on: a backslash, any
  character but a line terminator, a word, the same again, a second word, the end. Each
  is kept as its two words.
\<close>

definition commonCdnPatterns :: "(string \<times> string) list" where
  "commonCdnPatterns =
     [(''cloudflare'', ''com''), (''googleapis'', ''com''), (''gstatic'', ''com''),
      (''jsdelivr'', ''net''), (''unpkg'', ''com'')]"

definition notLineTerminator :: "char \<Rightarrow> bool" where
  "notLineTerminator c = (c \<noteq> CHR 0x0A \<and> c \<noteq> CHR 0x0D)"

definition cdn_test :: "string \<times> string \<Rightarrow> string \<Rightarrow> bool" where
  "cdn_test pat h =
     (let w1 = fst pat; w2 = snd pat; n = 4 + length w1 + length w2;
          t = drop (length h - n) h
      in n \<le> length h \<and> t ! 0 = CHR 0x5C \<and> notLineTerminator (t ! 1)
         \<and> take (length w1) (drop 2 t) = w1
         \<and> t ! (2 + length w1) = CHR 0x5C \<and> notLineTerminator (t ! (3 + length w1))
         \<and> drop (4 + length w1) t = w2)"

definition shouldProxyUrl :: "url \<Rightarrow> url \<Rightarrow> bool" where
  "shouldProxyUrl u targetUrl =
     (if hostname u = hostname targetUrl then True
      else if endsWith (hostname u) (''.'' @ hostname targetUrl) then True
      else if list_ex (\<lambda>pat. cdn_test pat (hostname u)) commonCdnPatterns then False
      else False)"

definition rewriteUrl :: "string \<Rightarrow> url \<Rightarrow> string \<Rightarrow> string" where
  "rewriteUrl u targetUrl proxyDomain =
     (if u = [] \<or> startsWith u ''data:'' \<or> startsWith u ''blob:'' \<or> startsWith u ''#'' then u
      else
        (case URL_parse_base u (origin targetUrl) of
           None \<Rightarrow> u
         | Some absoluteUrl \<Rightarrow>
             if shouldProxyUrl absoluteUrl targetUrl then
               (let proxySubdomain = replace_backslash_any (hostname absoluteUrl);
                    a1 = set_hostname absoluteUrl (proxySubdomain @ ''.'' @ proxyDomain);
                    a2 = set_protocol a1 ''https:''
                in toString a2)
             else u))"

text \<open>The results of a loop body run over a list: the first error ends the loop.\<close>

fun sequence_sum :: "(error + 'a) list \<Rightarrow> error + 'a list" where
  "sequence_sum [] = Inr []"
| "sequence_sum (Inl err # rs) = Inl err"
| "sequence_sum (Inr x # rs) = (case sequence_sum rs of Inl err \<Rightarrow> Inl err | Inr xs \<Rightarrow> Inr (x # xs))"

text \<open>
  \<^verbatim>\<open>rewriteJsonObject\<close>. In the object branch the loop calls \<^verbatim>\<open>obj.hasOwnProperty(key)\<close>: a
  parsed object with an own property of that name holds a JSON value there, not a function,
  and the call throws. \<^verbatim>\<open>result[key] = ...\<close> with the key \<^verbatim>\<open>__proto__\<close> reaches the prototype
  setter of the fresh object and leaves no own property.
\<close>

fun rewriteJsonObject :: "json \<Rightarrow> url \<Rightarrow> string \<Rightarrow> error + json" where
  "rewriteJsonObject (JStr s) targetUrl proxyDomain =
     (if re_http_prefix s then Inr (JStr (rewriteUrl s targetUrl proxyDomain)) else Inr (JStr s))"
| "rewriteJsonObject (JArr xs) targetUrl proxyDomain =
     (case sequence_sum (map (\<lambda>item. rewriteJsonObject item targetUrl proxyDomain) xs) of
        Inl err \<Rightarrow> Inl err
      | Inr ys \<Rightarrow> Inr (JArr ys))"
| "rewriteJsonObject (JObj kvs) targetUrl proxyDomain =
     (if kvs \<noteq> [] \<and> map_of kvs ''hasOwnProperty'' \<noteq> None
      then Inl (JsError ''TypeError'' ''obj.hasOwnProperty is not a function'')
      else
        (case sequence_sum
                (map (\<lambda>(key, v). case rewriteJsonObject v targetUrl proxyDomain of
                                     Inl err \<Rightarrow> Inl err
                                   | Inr v' \<Rightarrow> Inr (key, v')) kvs) of
           Inl err \<Rightarrow> Inl err
         | Inr kvs' \<Rightarrow> Inr (JObj (filter (\<lambda>(key, v). key \<noteq> ''__proto__'') kvs'))))"
| "rewriteJsonObject obj targetUrl proxyDomain = Inr obj"

text \<open>
  \<^verbatim>\<open>rewriteJson\<close>: \<^verbatim>\<open>JSON.parse\<close> and \<^verbatim>\<open>JSON.stringify\<close> belong to the platform and are
  parameters; either may throw. The \<^verbatim>\<open>try\<close> holds the parse, the walk and the
  serialisation, the \<^verbatim>\<open>catch\<close> returns the input. The result type keeps a place for an
  error leaving the function.
\<close>

definition rewriteJson ::
  "(string \<Rightarrow> error + json) \<Rightarrow> (json \<Rightarrow> error + string) \<Rightarrow> string \<Rightarrow> url \<Rightarrow> string
     \<Rightarrow> error + string" where
  "rewriteJson JSON_parse JSON_stringify json targetUrl proxyDomain =
     (case (case JSON_parse json of
              Inl err \<Rightarrow> Inl err
            | Inr data \<Rightarrow>
                (case rewriteJsonObject data targetUrl proxyDomain of
                   Inl err \<Rightarrow> Inl err
                 | Inr rewrittenData \<Rightarrow> JSON_stringify rewrittenData)) of
        Inr out \<Rightarrow> Inr out
      | Inl err \<Rightarrow> Inr json)"

section \<open>Notions used to state the properties\<close>

text \<open>
  A domain name as the round-trip law takes it: at least two labels separated by dots,
  each label non-empty, made of letters, digits and hyphens, and neither starting nor
  ending with a hyphen.
\<close>

definition valid_domain_name :: "string \<Rightarrow> bool" where
  "valid_domain_name d =
     (let labels = split_js ''.'' d
      in 2 \<le> length labels
         \<and> list_all (\<lambda>l. re_label l \<and> \<not> startsWith l ''-'' \<and> \<not> endsWith l ''-'') labels)"

text \<open>
  One of the four decimal numbers of a literal IPv4 host, the 32-bit value of the address
  \<open>a.b.c.d\<close>, and membership of an address in the block \<open>net/len\<close>: the top \<open>len\<close> bits
  agree.
\<close>

definition octet :: "string \<Rightarrow> bool" where
  "octet p = (1 \<le> length p \<and> length p \<le> 3 \<and> list_all isDigit p \<and> Number p \<le> 255)"

definition ipv4_value :: "nat \<Rightarrow> nat \<Rightarrow> nat \<Rightarrow> nat \<Rightarrow> nat" where
  "ipv4_value a b c d = ((a * 256 + b) * 256 + c) * 256 + d"

definition in_cidr :: "nat \<Rightarrow> nat \<Rightarrow> nat \<Rightarrow> bool" where
  "in_cidr addr net len = (addr div 2 ^ (32 - len) = net div 2 ^ (32 - len))"

section \<open>Evaluation rules and basic facts\<close>

lemmas str_defs = isDigit_def isAlpha_def isLabelChar_def isHostChar_def isSpace_def trim_def
  toLowerChar_def toLowerCase_def startsWith_def endsWith_def replace_dots_def Number_def
  re_label_def re_host_def re_ipv4_def re_standard_domain_def re_http_prefix_def
  re_http_prefix_i_def suffix_to_prefix Let_def

lemmas url_defs = URL_parse_def validHost_def forbiddenHostChar_def isPathEnd_def
  isAuthorityEnd_def host_def origin_def toString_def set_hostname_def set_protocol_def

lemma split_js_not_Nil: "split_js sep s \<noteq> []"
  by (induction sep s rule: split_js.induct) (auto split: list.splits)

lemma labelChar_not_space: "isLabelChar c \<Longrightarrow> \<not> isSpace c"
  by (auto simp: isLabelChar_def isSpace_def isAlpha_def isDigit_def Let_def)

lemma trim_id:
  assumes "s \<noteq> []" "\<not> isSpace (hd s)" "\<not> isSpace (last s)"
  shows "trim s = s"
proof -
  have a: "dropWhile isSpace s = s"
    using assms by (simp add: dropWhile_eq_self_iff)
  have b: "dropWhile isSpace (rev s) = rev s"
    using assms by (simp add: dropWhile_eq_self_iff hd_rev)
  show ?thesis by (simp add: trim_def a b)
qed

lemma re_label_trim: "re_label s \<Longrightarrow> trim s = s"
proof -
  assume a: "re_label s"
  then have ne: "s \<noteq> []" and all: "\<forall>c\<in>set s. isLabelChar c"
    by (auto simp: re_label_def list_all_iff)
  have "hd s \<in> set s" "last s \<in> set s" using ne by auto
  then show ?thesis
    using ne all by (intro trim_id) (auto dest: labelChar_not_space)
qed

lemma extractSubdomain_SomeD:
  assumes "extractSubdomain hn = Some s"
  shows "re_label s" and "isValidSubdomainFormat s" and "s = hd (split_js ''.'' hn)"
  using assms by (auto simp: extractSubdomain_def Let_def split: if_splits)

lemma gate_decodes:
  assumes "re_label s" "isValidSubdomainFormat s"
  shows "convertSubdomainToUrl s = Some (join_js ''.'' (split_js ''--'' s))"
proof -
  have ne: "s \<noteq> []" using assms(1) by (simp add: re_label_def)
  have len: "\<not> length (split_js ''--'' s) < 2"
    using assms(2) by (auto simp: isValidSubdomainFormat_def Let_def split: if_splits)
  have parts: "list_all (\<lambda>part. 0 < length part) (split_js ''--'' s)"
    using assms(2) by (auto simp: isValidSubdomainFormat_def Let_def list_all_iff split: if_splits)
  then have "\<not> list_ex (\<lambda>part. part = [] \<or> length part = 0) (split_js ''--'' s)"
    by (auto simp: list_all_iff list_ex_iff)
  then show ?thesis
    using ne len assms(1) by (simp add: convertSubdomainToUrl_def re_label_trim Let_def)
qed

section \<open>The gate implies the decoder (C10)\<close>

text \<open>
  Claim C10. Whenever \<^verbatim>\<open>extractSubdomain\<close> returns a subdomain \<open>s\<close> for a host name,
  \<^verbatim>\<open>convertSubdomainToUrl(s)\<close> returns a domain too (the parts of \<open>s\<close> joined by dots), so
  \<^verbatim>\<open>buildTargetUrl\<close> never throws its \<^verbatim>\<open>Invalid subdomain format\<close> error on the dispatch
  path, whatever the request URL is.
\<close>

theorem gate_implies_decoder:
  assumes "extractSubdomain hn = Some s"
  shows "convertSubdomainToUrl s = Some (join_js ''.'' (split_js ''--'' s))
         \<and> buildTargetUrl s u \<noteq> Inl (JsError ''Error'' ''Invalid subdomain format'')"
proof -
  have d: "convertSubdomainToUrl s = Some (join_js ''.'' (split_js ''--'' s))"
    using extractSubdomain_SomeD[OF assms] by (intro gate_decodes)
  then have "buildTargetUrl s u \<noteq> Inl (JsError ''Error'' ''Invalid subdomain format'')"
    by (simp add: buildTargetUrl_def split: option.splits)
  with d show ?thesis by simp
qed

theorem gate_implies_decoder_witness:
  "extractSubdomain ''youtube--com.gw.tld'' = Some ''youtube--com''
   \<and> convertSubdomainToUrl ''youtube--com'' = Some ''youtube.com''
   \<and> buildTargetUrl ''youtube--com''
        \<lparr>protocol = ''https:'', hostname = ''youtube--com.gw.tld'', port = [],
          pathname = ''/watch'', search = ''?v=1'', hash = []\<rparr>
       \<noteq> Inl (JsError ''Error'' ''Invalid subdomain format'')"
proof -
  have h: "extractSubdomain ''youtube--com.gw.tld'' = Some ''youtube--com''"
    by (simp add: extractSubdomain_def isValidSubdomainFormat_def str_defs)
  show ?thesis
    using h gate_implies_decoder[OF h,
      of "\<lparr>protocol = ''https:'', hostname = ''youtube--com.gw.tld'', port = [],
          pathname = ''/watch'', search = ''?v=1'', hash = []\<rparr>"]
    by simp
qed

section \<open>Rejection of malformed labels (C4)\<close>

lemma createErrorResponse_fetch [simp]:
  "createErrorResponse (e\<lparr>fetch := f\<rparr>) msg st = createErrorResponse e msg st"
  by (simp add: createErrorResponse_def)

lemma bad_label_not_valid:
  assumes "length (split_js ''--'' l) < 2
           \<or> [] \<in> set (split_js ''--'' l)
           \<or> (\<exists>p\<in>set (split_js ''--'' l). startsWith p ''-'' \<or> endsWith p ''-'')"
  shows "\<not> isValidSubdomainFormat l"
  using assms by (auto simp: isValidSubdomainFormat_def Let_def list_all_iff)

text \<open>
  Claim C4, as amended. \<^verbatim>\<open>extractSubdomain\<close> returns \<^verbatim>\<open>null\<close> for every host name whose first
  label splits on the double hyphen into fewer than two parts, or has an empty part, or has
  a part that starts or ends with a hyphen. Unless that first label is one of the landing
  page's, \<^verbatim>\<open>proxy\<close> and \<^verbatim>\<open>proxy--\<close>, \<^verbatim>\<open>handleRequest\<close> then answers with the 400 error
  response, the same for every upstream: nothing is fetched.
\<close>

theorem decoder_rejects_malformed_label:
  assumes "length (split_js ''--'' (hd (split_js ''.'' hn))) < 2
           \<or> [] \<in> set (split_js ''--'' (hd (split_js ''.'' hn)))
           \<or> (\<exists>p\<in>set (split_js ''--'' (hd (split_js ''.'' hn))).
                 startsWith p ''-'' \<or> endsWith p ''-'')"
  shows "extractSubdomain hn = None
         \<and> (URL_parse (req_url request) = Some u \<and> hostname u = hn
              \<and> hd (split_js ''.'' hn) \<noteq> ''proxy'' \<and> hd (split_js ''.'' hn) \<noteq> ''proxy--''
            \<longrightarrow> handleRequest (e\<lparr>fetch := f\<rparr>) request
                  = createErrorResponse e ''Invalid subdomain format'' 400)"
proof -
  have inv: "\<not> isValidSubdomainFormat (hd (split_js ''.'' hn))"
    using assms by (rule bad_label_not_valid)
  then have none: "extractSubdomain hn = None"
    by (simp add: extractSubdomain_def Let_def)
  then show ?thesis
    by (auto simp: handleRequest_def handleRequest_try_def Let_def)
qed

theorem decoder_rejects_malformed_label_witness:
  "split_js ''--'' (hd (split_js ''.'' ''a---b.gw.tld'')) = [''a'', ''-b'']
   \<and> startsWith ''-b'' ''-''
   \<and> extractSubdomain ''a---b.gw.tld'' = None
   \<and> handleRequest \<lparr>fetch = (\<lambda>u opts. Inl (JsError ''Error'' ''unreachable'')), now = ''T''\<rparr>
        \<lparr>req_method = ''GET'', req_url = ''https://a---b.gw.tld/'', req_headers = [],
          req_body = BNull, req_json = Inl (JsError ''SyntaxError'' [])\<rparr>
      = createErrorResponse \<lparr>fetch = (\<lambda>u opts. Inl (JsError ''Error'' ''unreachable'')), now = ''T''\<rparr>
          ''Invalid subdomain format'' 400"
proof -
  have s: "split_js ''--'' (hd (split_js ''.'' ''a---b.gw.tld'')) = [''a'', ''-b'']"
    by simp
  have p: "URL_parse ''https://a---b.gw.tld/''
           = Some \<lparr>protocol = ''https:'', hostname = ''a---b.gw.tld'', port = [],
                   pathname = ''/'', search = [], hash = []\<rparr>"
    by (simp add: url_defs str_defs)
  have w: "startsWith ''-b'' ''-''" by (simp add: startsWith_def)
  show ?thesis
    using s w p decoder_rejects_malformed_label[where hn = "''a---b.gw.tld''"
        and request = "\<lparr>req_method = ''GET'', req_url = ''https://a---b.gw.tld/'', req_headers = [],
          req_body = BNull, req_json = Inl (JsError ''SyntaxError'' [])\<rparr>"
        and u = "\<lparr>protocol = ''https:'', hostname = ''a---b.gw.tld'', port = [],
                   pathname = ''/'', search = [], hash = []\<rparr>"
        and e = "\<lparr>fetch = (\<lambda>u opts. Inl (JsError ''Error'' ''unreachable'')), now = ''T''\<rparr>"
        and f = "(\<lambda>u opts. Inl (JsError ''Error'' ''unreachable''))"]
    by simp
qed

lemma parse_landing:
  "URL_parse ''https://proxy.gw.tld/''
   = Some \<lparr>protocol = ''https:'', hostname = ''proxy.gw.tld'', port = [],
            pathname = ''/'', search = [], hash = []\<rparr>"
  by (simp add: url_defs str_defs)

lemma parse_landing_dashes:
  "URL_parse ''https://proxy--.gw.tld/''
   = Some \<lparr>protocol = ''https:'', hostname = ''proxy--.gw.tld'', port = [],
            pathname = ''/'', search = [], hash = []\<rparr>"
  by (simp add: url_defs str_defs)

lemma landing_page:
  "handleRequest e \<lparr>req_method = m, req_url = ''https://proxy.gw.tld/'',
          req_headers = hs, req_body = b, req_json = j\<rparr>
   = \<lparr> status = 200, statusText = [],
       resp_headers = new_Headers
         [(''Content-Type'', ''text/html; charset=utf-8''),
          (''Cache-Control'', ''public, max-age=3600''),
          (''X-Content-Type-Options'', ''nosniff''),
          (''X-Frame-Options'', ''DENY''),
          (''X-XSS-Protection'', ''1; mode=block'')],
       resp_body = BPage ''proxy.gw.tld'' \<rparr>"
  by (simp add: handleRequest_def handleRequest_try_def handleProxyPage_def parse_landing)

lemma landing_page_dashes:
  "status (handleRequest e \<lparr>req_method = m, req_url = ''https://proxy--.gw.tld/'',
          req_headers = hs, req_body = b, req_json = j\<rparr>) = 200"
  by (simp add: handleRequest_def handleRequest_try_def handleProxyPage_def
        parse_landing_dashes)

text \<open>
  The claim as first stated promises the 400 for every such label. The labels \<^verbatim>\<open>proxy\<close>
  (one part) and \<^verbatim>\<open>proxy--\<close> (an empty part) meet its conditions, the decoder would return
  \<^verbatim>\<open>null\<close> on them, and a request to either host is answered with the landing page and
  status 200.
\<close>

theorem decoder_rejects_malformed_label_counterexample:
  "length (split_js ''--'' (hd (split_js ''.'' ''proxy.gw.tld''))) < 2
   \<and> extractSubdomain ''proxy.gw.tld'' = None
   \<and> status (handleRequest
        \<lparr>fetch = (\<lambda>u opts. Inl (JsError ''Error'' ''unused'')), now = ''T''\<rparr>
        \<lparr>req_method = ''GET'', req_url = ''https://proxy.gw.tld/'', req_headers = [],
          req_body = BNull, req_json = Inl (JsError ''SyntaxError'' [])\<rparr>) = 200
   \<and> [] \<in> set (split_js ''--'' (hd (split_js ''.'' ''proxy--.gw.tld'')))
   \<and> extractSubdomain ''proxy--.gw.tld'' = None
   \<and> status (handleRequest
        \<lparr>fetch = (\<lambda>u opts. Inl (JsError ''Error'' ''unused'')), now = ''T''\<rparr>
        \<lparr>req_method = ''GET'', req_url = ''https://proxy--.gw.tld/'', req_headers = [],
          req_body = BNull, req_json = Inl (JsError ''SyntaxError'' [])\<rparr>) = 200"
proof -
  have a: "extractSubdomain ''proxy.gw.tld'' = None"
    by (simp add: extractSubdomain_def isValidSubdomainFormat_def str_defs)
  have b: "extractSubdomain ''proxy--.gw.tld'' = None"
    by (simp add: extractSubdomain_def isValidSubdomainFormat_def str_defs)
  show ?thesis by (simp add: a b landing_page landing_page_dashes)
qed

section \<open>Concrete requests\<close>

lemmas hdr_defs = headers_get_def headers_has_def headers_set_def headers_delete_def
  headers_entries_def new_Headers_def addCorsHeaders_def ALLOWED_METHODS_def CORS_MAX_AGE_def

lemma parse_github:
  "URL_parse ''https://github.com''
   = Some \<lparr>protocol = ''https:'', hostname = ''github.com'', port = [], pathname = ''/'',
            search = [], hash = []\<rparr>"
  by (simp add: url_defs str_defs)

lemma parse_generate:
  "URL_parse ''https://proxy.gw.tld/api/generate''
   = Some \<lparr>protocol = ''https:'', hostname = ''proxy.gw.tld'', port = [],
            pathname = ''/api/generate'', search = [], hash = []\<rparr>"
  by (simp add: url_defs str_defs)

lemma public_github:
  "isPublicUrl \<lparr>protocol = ''https:'', hostname = ''github.com'', port = [], pathname = ''/'',
            search = [], hash = []\<rparr>"
  by (simp add: isPublicUrl_def str_defs)

lemma normalize_github: "normalizeUrl (Some (JStr ''github.com'')) = Inr ''https://github.com''"
  by (simp add: str_defs)

lemma generate_github:
  "handleGenerateApi e
     \<lparr>req_method = ''POST'', req_url = ''https://proxy.gw.tld/api/generate'', req_headers = hs,
       req_body = b, req_json = Inr (JObj [(''url'', JStr ''github.com'')])\<rparr>
   = \<lparr>status = 200, statusText = [],
       resp_headers = [(''content-type'', ''application/json; charset=utf-8''),
                       (''access-control-allow-origin'', ''*'')],
       resp_body = BJson (JObj [(''success'', JBool True),
                                (''originalUrl'', JStr ''https://github.com''),
                                (''proxyUrl'', JStr ''https://github--com.gw.tld/'')])\<rparr>"
  by (simp add: handleGenerateApi_def parse_github parse_generate public_github normalize_github
        convertUrlToSubdomain_def hdr_defs str_defs)

section \<open>The link-generation scenario (C8)\<close>

text \<open>
  Claim C8, as amended. A \<^verbatim>\<open>POST\<close> to \<^verbatim>\<open>/api/generate\<close> on the host \<^verbatim>\<open>proxy.gw.tld\<close> whose
  body parses to \<^verbatim>\<open>{"url":"github.com"}\<close> is answered, whatever its headers, with status 200
  and the JSON object \<^verbatim>\<open>success: true\<close>, \<^verbatim>\<open>originalUrl: https://github.com\<close>,
  \<^verbatim>\<open>proxyUrl: https://github--com.gw.tld/\<close>: the path of the normalised target, a single
  slash, follows the encoded host.
\<close>

theorem generate_link_scenario:
  "handleRequest e
     \<lparr>req_method = ''POST'', req_url = ''https://proxy.gw.tld/api/generate'', req_headers = hs,
       req_body = b, req_json = Inr (JObj [(''url'', JStr ''github.com'')])\<rparr>
   = \<lparr>status = 200, statusText = [],
       resp_headers = [(''content-type'', ''application/json; charset=utf-8''),
                       (''access-control-allow-origin'', ''*'')],
       resp_body = BJson (JObj [(''success'', JBool True),
                                (''originalUrl'', JStr ''https://github.com''),
                                (''proxyUrl'', JStr ''https://github--com.gw.tld/'')])\<rparr>"
  by (simp add: handleRequest_def handleRequest_try_def handleProxyPage_def parse_generate
        generate_github)

text \<open>
  The claim as first stated asks for \<^verbatim>\<open>https://github--com.gw.tld\<close> exactly; the field
  read from the response is a different string.
\<close>

theorem generate_link_counterexample:
  "(case resp_body (handleRequest
        \<lparr>fetch = (\<lambda>u opts. Inl (JsError ''Error'' ''unused'')), now = ''T''\<rparr>
        \<lparr>req_method = ''POST'', req_url = ''https://proxy.gw.tld/api/generate'',
          req_headers = [(''content-type'', ''application/json'')], req_body = BNull,
          req_json = Inr (JObj [(''url'', JStr ''github.com'')])\<rparr>) of
      BJson (JObj kvs) \<Rightarrow> map_of kvs ''proxyUrl''
    | _ \<Rightarrow> None)
   \<noteq> Some (JStr ''https://github--com.gw.tld'')"
  by (simp add: handleRequest_def handleRequest_try_def handleProxyPage_def parse_generate
        generate_github)



section \<open>Preflight requests (C7)\<close>

lemma headers_get_set:
  "headers_get (headers_set h n v) m
   = (if toLowerCase m = toLowerCase n then Some v else headers_get h m)"
  by (simp add: headers_get_def headers_set_def update_conv')

lemma headers_get_delete:
  "headers_get (headers_delete h n) m
   = (if toLowerCase m = toLowerCase n then None else headers_get h m)"
  by (simp add: headers_get_def headers_delete_def delete_conv')

lemma lower_cors_names:
  "toLowerCase ''Access-Control-Allow-Origin'' = ''access-control-allow-origin''"
  "toLowerCase ''Access-Control-Allow-Methods'' = ''access-control-allow-methods''"
  "toLowerCase ''Access-Control-Allow-Headers'' = ''access-control-allow-headers''"
  "toLowerCase ''Access-Control-Max-Age'' = ''access-control-max-age''"
  "toLowerCase ''Access-Control-Expose-Headers'' = ''access-control-expose-headers''"
  by (simp_all add: toLowerCase_def toLowerChar_def)

lemma get_addCors_origin:
  "headers_get (addCorsHeaders h) ''Access-Control-Allow-Origin'' = Some ''*''"
  by (simp add: addCorsHeaders_def Let_def headers_get_set lower_cors_names)

lemma handleOptions_result:
  "status (handleOptions request) = 204
   \<and> headers_get (resp_headers (handleOptions request)) ''Access-Control-Allow-Origin'' = Some ''*''"
  by (simp add: handleOptions_def Let_def get_addCors_origin headers_get_set lower_cors_names
        split: option.splits)

lemma gate_not_landing:
  assumes "extractSubdomain hn = Some s"
  shows "hd (split_js ''.'' hn) \<noteq> ''proxy'' \<and> hd (split_js ''.'' hn) \<noteq> ''proxy--''"
proof -
  have v: "isValidSubdomainFormat (hd (split_js ''.'' hn))"
    using extractSubdomain_SomeD[OF assms] by simp
  have "\<not> isValidSubdomainFormat ''proxy''" "\<not> isValidSubdomainFormat ''proxy--''"
    by (simp_all add: isValidSubdomainFormat_def str_defs)
  with v show ?thesis by auto
qed

text \<open>
  Claim C7, as amended. Every \<^verbatim>\<open>OPTIONS\<close> request whose host name passes the subdomain gate
  (\<^verbatim>\<open>extractSubdomain\<close> returns a subdomain) is answered with status 204 and the header
  \<^verbatim>\<open>Access-Control-Allow-Origin: *\<close>.
\<close>

theorem options_preflight:
  assumes "req_method request = ''OPTIONS''"
    and "URL_parse (req_url request) = Some u"
    and "extractSubdomain (hostname u) = Some s"
  shows "status (handleRequest e request) = 204
         \<and> headers_get (resp_headers (handleRequest e request)) ''Access-Control-Allow-Origin''
             = Some ''*''"
proof -
  have m: "req_method request \<in> set ALLOWED_METHODS"
    using assms(1) by (simp add: ALLOWED_METHODS_def)
  have "handleRequest e request = handleOptions request"
    using assms m gate_not_landing[OF assms(3)]
    by (simp add: handleRequest_def handleRequest_try_def Let_def)
  then show ?thesis by (simp add: handleOptions_result)
qed

lemma parse_preflight:
  "URL_parse ''https://youtube--com.gw.tld/watch''
   = Some \<lparr>protocol = ''https:'', hostname = ''youtube--com.gw.tld'', port = [],
            pathname = ''/watch'', search = [], hash = []\<rparr>"
  by (simp add: url_defs str_defs)

theorem options_preflight_witness:
  "extractSubdomain ''youtube--com.gw.tld'' = Some ''youtube--com''
   \<and> status (handleRequest \<lparr>fetch = (\<lambda>u opts. Inl (JsError ''Error'' ''unused'')), now = ''T''\<rparr>
        \<lparr>req_method = ''OPTIONS'', req_url = ''https://youtube--com.gw.tld/watch'',
          req_headers = [], req_body = BNull, req_json = Inl (JsError ''SyntaxError'' [])\<rparr>) = 204
   \<and> headers_get (resp_headers (handleRequest
        \<lparr>fetch = (\<lambda>u opts. Inl (JsError ''Error'' ''unused'')), now = ''T''\<rparr>
        \<lparr>req_method = ''OPTIONS'', req_url = ''https://youtube--com.gw.tld/watch'',
          req_headers = [], req_body = BNull, req_json = Inl (JsError ''SyntaxError'' [])\<rparr>))
        ''Access-Control-Allow-Origin'' = Some ''*''"
proof -
  have g: "extractSubdomain ''youtube--com.gw.tld'' = Some ''youtube--com''"
    by (simp add: extractSubdomain_def isValidSubdomainFormat_def str_defs)
  show ?thesis
    using g options_preflight[where request =
        "\<lparr>req_method = ''OPTIONS'', req_url = ''https://youtube--com.gw.tld/watch'',
          req_headers = [], req_body = BNull, req_json = Inl (JsError ''SyntaxError'' [])\<rparr>"
        and u = "\<lparr>protocol = ''https:'', hostname = ''youtube--com.gw.tld'', port = [],
            pathname = ''/watch'', search = [], hash = []\<rparr>"
        and s = "''youtube--com''"
        and e = "\<lparr>fetch = (\<lambda>u opts. Inl (JsError ''Error'' ''unused'')), now = ''T''\<rparr>"]
    by (simp add: parse_preflight)
qed

lemma parse_plain:
  "URL_parse ''https://example.gw.tld/''
   = Some \<lparr>protocol = ''https:'', hostname = ''example.gw.tld'', port = [],
            pathname = ''/'', search = [], hash = []\<rparr>"
  by (simp add: url_defs str_defs)

lemma gate_plain: "extractSubdomain ''example.gw.tld'' = None"
  by (simp add: extractSubdomain_def isValidSubdomainFormat_def str_defs)

lemma status_createErrorResponse [simp]: "status (createErrorResponse e msg st) = st"
  by (simp add: createErrorResponse_def Let_def)

lemma landing_headers:
  "headers_get (new_Headers
         [(''Content-Type'', ''text/html; charset=utf-8''),
          (''Cache-Control'', ''public, max-age=3600''),
          (''X-Content-Type-Options'', ''nosniff''),
          (''X-Frame-Options'', ''DENY''),
          (''X-XSS-Protection'', ''1; mode=block'')]) ''Access-Control-Allow-Origin'' = None"
  by (simp add: new_Headers_def headers_get_def headers_set_def toLowerCase_def toLowerChar_def)

lemma plain_options:
  "handleRequest e \<lparr>req_method = ''OPTIONS'', req_url = ''https://example.gw.tld/'',
          req_headers = hs, req_body = b, req_json = j\<rparr>
   = createErrorResponse e ''Invalid subdomain format'' 400"
  by (simp add: handleRequest_def handleRequest_try_def parse_plain gate_plain)

text \<open>
  The claim as first stated covers every host name. On the landing host an \<^verbatim>\<open>OPTIONS\<close>
  request gets the page with status 200 and no \<^verbatim>\<open>Access-Control-Allow-Origin\<close>; on a host
  whose first label is not an encoded target it gets the 400 error.
\<close>

theorem options_preflight_counterexample:
  "status (handleRequest \<lparr>fetch = (\<lambda>u opts. Inl (JsError ''Error'' ''unused'')), now = ''T''\<rparr>
        \<lparr>req_method = ''OPTIONS'', req_url = ''https://proxy.gw.tld/'',
          req_headers = [], req_body = BNull, req_json = Inl (JsError ''SyntaxError'' [])\<rparr>) = 200
   \<and> headers_get (resp_headers (handleRequest
        \<lparr>fetch = (\<lambda>u opts. Inl (JsError ''Error'' ''unused'')), now = ''T''\<rparr>
        \<lparr>req_method = ''OPTIONS'', req_url = ''https://proxy.gw.tld/'',
          req_headers = [], req_body = BNull, req_json = Inl (JsError ''SyntaxError'' [])\<rparr>))
        ''Access-Control-Allow-Origin'' = None
   \<and> status (handleRequest \<lparr>fetch = (\<lambda>u opts. Inl (JsError ''Error'' ''unused'')), now = ''T''\<rparr>
        \<lparr>req_method = ''OPTIONS'', req_url = ''https://example.gw.tld/'',
          req_headers = [], req_body = BNull, req_json = Inl (JsError ''SyntaxError'' [])\<rparr>) = 400"
  by (simp add: landing_page landing_headers plain_options)

section \<open>Redirects (C6)\<close>













section \<open>The end-to-end HTML scenario (C1)\<close>

lemma resp_body_createProxyResponse [simp]:
  "resp_body (createProxyResponse r) = resp_body r"
  by (simp add: createProxyResponse_def Let_def)

lemma status_createProxyResponse [simp]:
  "status (createProxyResponse r) = status r"
  by (simp add: createProxyResponse_def Let_def)

lemma proxied_body_passed_through:
  assumes "URL_parse (req_url request) = Some u"
    and "extractSubdomain (hostname u) = Some s"
    and "req_method request \<in> set ALLOWED_METHODS"
    and "req_method request \<noteq> ''OPTIONS''"
    and "buildTargetUrl s u = Inr t"
    and "fetch e (toString t) (requestOptions request t) = Inr response"
    and "\<not> (300 \<le> status response \<and> status response < 400)"
  shows "handleRequest e request = createProxyResponse response"
  using assms gate_not_landing[OF assms(2)]
  by (auto simp: handleRequest_def handleRequest_try_def proxyRequest_def Let_def)

lemma parse_watch:
  "URL_parse ''https://youtube--com.gw.tld/watch?v=1''
   = Some \<lparr>protocol = ''https:'', hostname = ''youtube--com.gw.tld'', port = [],
            pathname = ''/watch'', search = ''?v=1'', hash = []\<rparr>"
  by (simp add: url_defs str_defs)

lemma gate_youtube: "extractSubdomain ''youtube--com.gw.tld'' = Some ''youtube--com''"
  by (simp add: extractSubdomain_def isValidSubdomainFormat_def str_defs)

lemma target_youtube:
  "buildTargetUrl ''youtube--com''
     \<lparr>protocol = ''https:'', hostname = ''youtube--com.gw.tld'', port = [],
       pathname = ''/watch'', search = ''?v=1'', hash = []\<rparr>
   = Inr \<lparr>protocol = ''https:'', hostname = ''youtube.com'', port = [], pathname = ''/watch'',
           search = ''?v=1'', hash = []\<rparr>"
  by (simp add: buildTargetUrl_def convertSubdomainToUrl_def url_defs str_defs)

lemma rewriteUrl_youtube:
  "rewriteUrl ''https://youtube.com/next''
     \<lparr>protocol = ''https:'', hostname = ''youtube.com'', port = [], pathname = ''/watch'',
       search = ''?v=1'', hash = []\<rparr> ''gw.tld''
   = ''https://youtube.com.gw.tld/next''"
  by (simp add: rewriteUrl_def URL_parse_base_def shouldProxyUrl_def url_defs str_defs)

text \<open>
  Claim C1 at its own scenario. The request for \<^verbatim>\<open>youtube--com.gw.tld/watch?v=1\<close> is sent to
  \<^verbatim>\<open>https://youtube.com/watch?v=1\<close>; the upstream answers 200 with \<^verbatim>\<open>Content-Type: text/html\<close>
  and a body holding \<^verbatim>\<open><a href="https://youtube.com/next">\<close>. The body that
  \<^verbatim>\<open>handleRequest\<close> returns is that same text: the \<^verbatim>\<open>proxyRequest\<close> in force hands the
  response to \<^verbatim>\<open>createProxyResponse\<close>, which does not touch the body. \<^verbatim>\<open>rewriteUrl\<close>, which
  the rewriting path would apply to the link, gives \<^verbatim>\<open>https://youtube.com.gw.tld/next\<close>.
\<close>

theorem html_body_not_rewritten:
  \<open>toString \<lparr>protocol = ''https:'', hostname = ''youtube.com'', port = [], pathname = ''/watch'',
             search = ''?v=1'', hash = []\<rparr> = ''https://youtube.com/watch?v=1''
   \<and> resp_body (handleRequest
        \<lparr>fetch = (\<lambda>u opts. Inr \<lparr>status = 200, statusText = ''OK'',
                     resp_headers = [(''content-type'', ''text/html'')],
                     resp_body = BText ''<a href="https://youtube.com/next">''\<rparr>), now = ''T''\<rparr>
        \<lparr>req_method = ''GET'', req_url = ''https://youtube--com.gw.tld/watch?v=1'',
          req_headers = [], req_body = BNull, req_json = Inl (JsError ''SyntaxError'' [])\<rparr>)
     = BText ''<a href="https://youtube.com/next">''
   \<and> rewriteUrl ''https://youtube.com/next''
        \<lparr>protocol = ''https:'', hostname = ''youtube.com'', port = [], pathname = ''/watch'',
          search = ''?v=1'', hash = []\<rparr> ''gw.tld''
     = ''https://youtube.com.gw.tld/next''\<close>
proof -
  have \<open>handleRequest
        \<lparr>fetch = (\<lambda>u opts. Inr \<lparr>status = 200, statusText = ''OK'',
                     resp_headers = [(''content-type'', ''text/html'')],
                     resp_body = BText ''<a href="https://youtube.com/next">''\<rparr>), now = ''T''\<rparr>
        \<lparr>req_method = ''GET'', req_url = ''https://youtube--com.gw.tld/watch?v=1'',
          req_headers = [], req_body = BNull, req_json = Inl (JsError ''SyntaxError'' [])\<rparr>
     = createProxyResponse \<lparr>status = 200, statusText = ''OK'',
                     resp_headers = [(''content-type'', ''text/html'')],
                     resp_body = BText ''<a href="https://youtube.com/next">''\<rparr>\<close>
    by (rule proxied_body_passed_through[OF _ _ _ _ target_youtube])
       (simp_all add: parse_watch gate_youtube ALLOWED_METHODS_def)
  then show ?thesis
    by (simp add: rewriteUrl_youtube toString_def host_def)
qed

section \<open>The JSON rewriter does not throw (C9)\<close>

text \<open>
  Claim C9. For every input string, and whatever the platform's parser and serialiser do,
  \<^verbatim>\<open>rewriteJson\<close> returns a string and lets no error out; when the input does not parse, the
  string returned is the input.
\<close>

theorem rewriteJson_never_throws:
  "(\<exists>out. rewriteJson JSON_parse JSON_stringify json targetUrl proxyDomain = Inr out)
   \<and> (JSON_parse json = Inl err
        \<longrightarrow> rewriteJson JSON_parse JSON_stringify json targetUrl proxyDomain = Inr json)"
  by (simp add: rewriteJson_def split: sum.splits)

theorem rewriteJson_never_throws_witness:
  "rewriteJson (\<lambda>s. Inl (JsError ''SyntaxError'' ''Unexpected token''))
        (\<lambda>j. Inr ''null'') ''<html>''
        \<lparr>protocol = ''https:'', hostname = ''youtube.com'', port = [], pathname = ''/'',
          search = [], hash = []\<rparr> ''gw.tld''
      = Inr ''<html>''"
  using rewriteJson_never_throws[where JSON_parse = "\<lambda>s. Inl (JsError ''SyntaxError'' ''Unexpected token'')"
      and JSON_stringify = "\<lambda>j. Inr ''null''" and json = "''<html>''"
      and err = "JsError ''SyntaxError'' ''Unexpected token''"
      and targetUrl = "\<lparr>protocol = ''https:'', hostname = ''youtube.com'', port = [],
          pathname = ''/'', search = [], hash = []\<rparr>" and proxyDomain = "''gw.tld''"]
  by simp

section \<open>Outbound header hygiene (C3)\<close>

lemma toLowerChar_idem: "toLowerChar (toLowerChar c) = toLowerChar c"
  by (simp add: toLowerChar_def)

lemma toLowerCase_idem: "toLowerCase (toLowerCase s) = toLowerCase s"
  by (simp add: toLowerCase_def toLowerChar_idem)

lemma keys_headers_set:
  "fst ` set (headers_set h n v) = insert (toLowerCase n) (fst ` set h)"
  by (simp add: headers_set_def dom_update)

lemma keys_headers_delete:
  "fst ` set (headers_delete h n) \<subseteq> fst ` set h"
  by (simp add: headers_delete_def dom_delete_subset)

lemma keys_set_allowed:
  assumes "\<forall>k\<in>fst ` set h. toLowerCase k \<notin> set BLOCKED_HEADERS"
    and "toLowerCase n \<notin> set BLOCKED_HEADERS"
  shows "\<forall>k\<in>fst ` set (headers_set h n v). toLowerCase k \<notin> set BLOCKED_HEADERS"
  using assms by (simp add: keys_headers_set toLowerCase_idem)

lemma keys_delete_allowed:
  assumes "\<forall>k\<in>fst ` set h. toLowerCase k \<notin> set BLOCKED_HEADERS"
  shows "\<forall>k\<in>fst ` set (headers_delete h n). toLowerCase k \<notin> set BLOCKED_HEADERS"
  using assms keys_headers_delete[of h n] by blast

lemma foldl_invariant:
  assumes "P acc" and "\<And>a x. P a \<Longrightarrow> P (f a x)"
  shows "P (foldl f acc xs)"
  using assms(1) by (induction xs arbitrary: acc) (simp_all add: assms(2))

text \<open>The copying loop keeps deny-listed names out, whatever their casing in the input.\<close>

lemma copy_loop_keys:
  assumes "\<forall>k\<in>fst ` set acc. toLowerCase k \<notin> set BLOCKED_HEADERS"
  shows "\<forall>k\<in>fst ` set
           (foldl (\<lambda>cleanedHeaders (key, v).
                     let lowerKey = toLowerCase key
                     in if lowerKey \<notin> set BLOCKED_HEADERS
                        then headers_set cleanedHeaders key v else cleanedHeaders)
              acc entries).
           toLowerCase k \<notin> set BLOCKED_HEADERS"
proof (rule foldl_invariant[where P = "\<lambda>h. \<forall>k\<in>fst ` set h. toLowerCase k \<notin> set BLOCKED_HEADERS"])
  show "\<forall>k\<in>fst ` set acc. toLowerCase k \<notin> set BLOCKED_HEADERS" by (rule assms)
next
  fix a :: headers and x :: "string \<times> string"
  assume ok: "\<forall>k\<in>fst ` set a. toLowerCase k \<notin> set BLOCKED_HEADERS"
  obtain key v where x: "x = (key, v)" by (cases x)
  show "\<forall>k\<in>fst ` set (case x of (key, v) \<Rightarrow>
                     let lowerKey = toLowerCase key
                     in if lowerKey \<notin> set BLOCKED_HEADERS
                        then headers_set a key v else a).
           toLowerCase k \<notin> set BLOCKED_HEADERS"
  proof (cases "toLowerCase key \<in> set BLOCKED_HEADERS")
    case True
    with ok show ?thesis by (simp add: x)
  next
    case False
    with keys_set_allowed[OF ok False] show ?thesis by (simp add: x)
  qed
qed

lemma lower_request_names:
  "toLowerCase ''Host'' = ''host''"
  "toLowerCase ''Origin'' = ''origin''"
  "toLowerCase ''Referer'' = ''referer''"
  "toLowerCase ''User-Agent'' = ''user-agent''"
  "toLowerCase ''Accept'' = ''accept''"
  "toLowerCase ''Accept-Language'' = ''accept-language''"
  "toLowerCase ''Accept-Encoding'' = ''accept-encoding''"
  by (simp_all add: toLowerCase_def toLowerChar_def)

text \<open>
  The shape of \<^verbatim>\<open>cleanRequestHeaders\<close>: the copying loop, \<^verbatim>\<open>Host\<close>, then only \<^verbatim>\<open>set\<close> on six
  fixed names and \<^verbatim>\<open>delete\<close> of \<^verbatim>\<open>Referer\<close>. A property established when \<^verbatim>\<open>Host\<close> is set and
  kept by those steps holds of the result.
\<close>

lemma cleanRequestHeaders_cases:
  assumes host: "P (headers_set
             (foldl (\<lambda>cleanedHeaders (key, v).
                        let lowerKey = toLowerCase key
                        in if lowerKey \<notin> set BLOCKED_HEADERS
                           then headers_set cleanedHeaders key v else cleanedHeaders)
                 [] (headers_entries originalHeaders))
             ''Host'' (hostname targetUrl))"
    and sets: "\<And>h n v. P h \<Longrightarrow> n \<in> set [''Origin'', ''Referer'', ''User-Agent'', ''Accept'',
                  ''Accept-Language'', ''Accept-Encoding''] \<Longrightarrow> P (headers_set h n v)"
    and del: "\<And>h. P h \<Longrightarrow> P (headers_delete h ''Referer'')"
  shows "P (cleanRequestHeaders originalHeaders targetUrl)"
proof -
  define h1 where "h1 = headers_set
             (foldl (\<lambda>cleanedHeaders (key, v).
                        let lowerKey = toLowerCase key
                        in if lowerKey \<notin> set BLOCKED_HEADERS
                           then headers_set cleanedHeaders key v else cleanedHeaders)
                 [] (headers_entries originalHeaders))
             ''Host'' (hostname targetUrl)"
  define h2 where "h2 = (if headers_has originalHeaders ''Origin''
                then headers_set h1 ''Origin'' (origin targetUrl) else h1)"
  define h3 where "h3 = (if headers_has originalHeaders ''Referer''
                then (case Option.bind (headers_get originalHeaders ''Referer'') URL_parse of
                        Some refererUrl \<Rightarrow>
                          headers_set h2 ''Referer''
                            (toString (set_protocol (set_hostname refererUrl (hostname targetUrl))
                                         (protocol targetUrl)))
                      | None \<Rightarrow> headers_delete h2 ''Referer'')
                else h2)"
  define h4 where "h4 = (if \<not> headers_has h3 ''User-Agent''
                then headers_set h3 ''User-Agent''
                  ''Mozilla/5.0 (Windows NT 10.0; Win64; x64) AppleWebKit/537.36 (KHTML, like Gecko) Chrome/120.0.0.0 Safari/537.36''
                else h3)"
  define h5 where "h5 = (if \<not> headers_has h4 ''Accept''
                then headers_set h4 ''Accept''
                  ''text/html,application/xhtml+xml,application/xml;q=0.9,image/webp,*/*;q=0.8''
                else h4)"
  define h6 where "h6 = (if \<not> headers_has h5 ''Accept-Language''
                then headers_set h5 ''Accept-Language'' ''en-US,en;q=0.5'' else h5)"
  define h7 where "h7 = (if \<not> headers_has h6 ''Accept-Encoding''
         then headers_set h6 ''Accept-Encoding'' ''gzip, deflate, br'' else h6)"
  have eq: "cleanRequestHeaders originalHeaders targetUrl = h7"
    unfolding cleanRequestHeaders_def h7_def h6_def h5_def h4_def h3_def h2_def h1_def
    by (simp only: Let_def)
  have 1: "P h1" unfolding h1_def by (rule host)
  have 2: "P h2"
  proof (cases "headers_has originalHeaders ''Origin''")
    case True
    have "P (headers_set h1 ''Origin'' (origin targetUrl))" by (rule sets[OF 1]) simp
    with True show ?thesis by (simp only: h2_def if_True)
  next
    case False
    with 1 show ?thesis by (simp only: h2_def if_False)
  qed
  have 3: "P h3"
  proof (cases "headers_has originalHeaders ''Referer''")
    case False
    with 2 show ?thesis by (simp only: h3_def if_False)
  next
    case True
    show ?thesis
    proof (cases "Option.bind (headers_get originalHeaders ''Referer'') URL_parse")
      case None
      have "P (headers_delete h2 ''Referer'')" by (rule del[OF 2])
      with True None show ?thesis by (simp only: h3_def if_True option.case)
    next
      case (Some refererUrl)
      have "P (headers_set h2 ''Referer''
                 (toString (set_protocol (set_hostname refererUrl (hostname targetUrl))
                              (protocol targetUrl))))"
        by (rule sets[OF 2]) simp
      with True Some show ?thesis by (simp only: h3_def if_True option.case)
    qed
  qed
  have step: "P (if \<not> headers_has h n then headers_set h n v else h)"
    if "P h" "n \<in> set [''Origin'', ''Referer'', ''User-Agent'', ''Accept'',
                  ''Accept-Language'', ''Accept-Encoding'']" for h n v
  proof (cases "headers_has h n")
    case True
    with that(1) show ?thesis by simp
  next
    case False
    with sets[OF that] show ?thesis by simp
  qed
  have 4: "P h4" unfolding h4_def by (rule step[OF 3]) simp
  have 5: "P h5" unfolding h5_def by (rule step[OF 4]) simp
  have 6: "P h6" unfolding h6_def by (rule step[OF 5]) simp
  have 7: "P h7" unfolding h7_def by (rule step[OF 6]) simp
  show ?thesis using 7 by (simp only: eq)
qed

lemma clean_keys:
  "\<forall>k\<in>fst ` set (cleanRequestHeaders originalHeaders targetUrl).
     toLowerCase k \<notin> set BLOCKED_HEADERS"
proof (rule cleanRequestHeaders_cases)
  have loop: "\<forall>k\<in>fst ` set
           (foldl (\<lambda>cleanedHeaders (key, v).
                     let lowerKey = toLowerCase key
                     in if lowerKey \<notin> set BLOCKED_HEADERS
                        then headers_set cleanedHeaders key v else cleanedHeaders)
              [] (headers_entries originalHeaders)).
           toLowerCase k \<notin> set BLOCKED_HEADERS"
    by (rule copy_loop_keys) simp
  have "toLowerCase ''Host'' \<notin> set BLOCKED_HEADERS"
    by (simp add: lower_request_names BLOCKED_HEADERS_def)
  with loop show "\<forall>k\<in>fst ` set (headers_set
             (foldl (\<lambda>cleanedHeaders (key, v).
                        let lowerKey = toLowerCase key
                        in if lowerKey \<notin> set BLOCKED_HEADERS
                           then headers_set cleanedHeaders key v else cleanedHeaders)
                 [] (headers_entries originalHeaders))
             ''Host'' (hostname targetUrl)). toLowerCase k \<notin> set BLOCKED_HEADERS"
    by (rule keys_set_allowed)
next
  fix h :: headers and n v
  assume ok: "\<forall>k\<in>fst ` set h. toLowerCase k \<notin> set BLOCKED_HEADERS"
    and n: "n \<in> set [''Origin'', ''Referer'', ''User-Agent'', ''Accept'',
                  ''Accept-Language'', ''Accept-Encoding'']"
  from n have "toLowerCase n \<notin> set BLOCKED_HEADERS"
    by (auto simp: lower_request_names BLOCKED_HEADERS_def)
  with ok show "\<forall>k\<in>fst ` set (headers_set h n v). toLowerCase k \<notin> set BLOCKED_HEADERS"
    by (rule keys_set_allowed)
next
  fix h :: headers
  assume "\<forall>k\<in>fst ` set h. toLowerCase k \<notin> set BLOCKED_HEADERS"
  then show "\<forall>k\<in>fst ` set (headers_delete h ''Referer''). toLowerCase k \<notin> set BLOCKED_HEADERS"
    by (rule keys_delete_allowed)
qed

lemma clean_host:
  "headers_get (cleanRequestHeaders originalHeaders targetUrl) ''Host'' = Some (hostname targetUrl)"
proof (rule cleanRequestHeaders_cases)
  fix h :: headers and n v
  assume "headers_get h ''Host'' = Some (hostname targetUrl)"
    and "n \<in> set [''Origin'', ''Referer'', ''User-Agent'', ''Accept'',
                  ''Accept-Language'', ''Accept-Encoding'']"
  then show "headers_get (headers_set h n v) ''Host'' = Some (hostname targetUrl)"
    by (auto simp: headers_get_set lower_request_names)
next
  fix h :: headers
  assume "headers_get h ''Host'' = Some (hostname targetUrl)"
  then show "headers_get (headers_delete h ''Referer'') ''Host'' = Some (hostname targetUrl)"
    by (simp add: headers_get_delete lower_request_names)
qed (simp add: headers_get_set)

text \<open>
  Claim C3. For every inbound header list, whatever the casing of its names, and every
  target URL, no header of the outbound set has a lower-cased name on the deny-list, no
  deny-listed name is found in it under any casing, and its \<^verbatim>\<open>Host\<close> is the target's host
  name.
\<close>

theorem request_headers_hygiene:
  "(\<forall>(k, v)\<in>set (headers_entries (cleanRequestHeaders originalHeaders targetUrl)).
       toLowerCase k \<notin> set BLOCKED_HEADERS)
   \<and> (toLowerCase n \<in> set BLOCKED_HEADERS
        \<longrightarrow> \<not> headers_has (cleanRequestHeaders originalHeaders targetUrl) n)
   \<and> headers_get (cleanRequestHeaders originalHeaders targetUrl) ''Host''
       = Some (hostname targetUrl)"
proof -
  let ?h = "cleanRequestHeaders originalHeaders targetUrl"
  have keys: "\<forall>k\<in>fst ` set ?h. toLowerCase k \<notin> set BLOCKED_HEADERS"
    by (rule clean_keys)
  then have a: "\<forall>(k, v)\<in>set (headers_entries ?h). toLowerCase k \<notin> set BLOCKED_HEADERS"
    by (force simp: headers_entries_def)
  have b: "\<not> headers_has ?h n" if blocked: "toLowerCase n \<in> set BLOCKED_HEADERS"
  proof
    assume "headers_has ?h n"
    then obtain v where "map_of ?h (toLowerCase n) = Some v"
      by (auto simp: headers_has_def)
    then have "toLowerCase n \<in> fst ` set ?h"
      by (force dest: map_of_SomeD)
    with keys have "toLowerCase (toLowerCase n) \<notin> set BLOCKED_HEADERS" by blast
    with blocked show False by (simp add: toLowerCase_idem)
  qed
  show ?thesis using a b clean_host by blast
qed

theorem request_headers_hygiene_witness:
  "toLowerCase ''X-Forwarded-For'' \<in> set BLOCKED_HEADERS
   \<and> \<not> headers_has (cleanRequestHeaders
          [(''X-Forwarded-For'', ''203.0.113.7''), (''CF-Connecting-IP'', ''203.0.113.7''),
           (''cookie'', ''a=1''), (''host'', ''youtube--com.gw.tld'')]
          \<lparr>protocol = ''https:'', hostname = ''youtube.com'', port = [], pathname = ''/watch'',
            search = ''?v=1'', hash = []\<rparr>) ''X-Forwarded-For''
   \<and> headers_get (cleanRequestHeaders
          [(''X-Forwarded-For'', ''203.0.113.7''), (''CF-Connecting-IP'', ''203.0.113.7''),
           (''cookie'', ''a=1''), (''host'', ''youtube--com.gw.tld'')]
          \<lparr>protocol = ''https:'', hostname = ''youtube.com'', port = [], pathname = ''/watch'',
            search = ''?v=1'', hash = []\<rparr>) ''Host'' = Some ''youtube.com''"
proof -
  have h: "toLowerCase ''X-Forwarded-For'' \<in> set BLOCKED_HEADERS"
    by (simp add: toLowerCase_def toLowerChar_def BLOCKED_HEADERS_def)
  show ?thesis
    using h request_headers_hygiene[where n = "''X-Forwarded-For''"
        and originalHeaders = "[(''X-Forwarded-For'', ''203.0.113.7''),
           (''CF-Connecting-IP'', ''203.0.113.7''), (''cookie'', ''a=1''),
           (''host'', ''youtube--com.gw.tld'')]"
        and targetUrl = "\<lparr>protocol = ''https:'', hostname = ''youtube.com'', port = [],
            pathname = ''/watch'', search = ''?v=1'', hash = []\<rparr>"]
    by simp
qed

section \<open>Splitting and joining\<close>

lemma split_char_append:
  "c \<notin> set p \<Longrightarrow> split_js [c] (p @ c # rest) = p # split_js [c] rest"
  by (induction p) auto

lemma split_char_none: "c \<notin> set p \<Longrightarrow> split_js [c] p = [p]"
  by (induction p) auto

lemma join_split: "sep \<noteq> [] \<Longrightarrow> join_js sep (split_js sep s) = s"
proof (induction sep s rule: split_js.induct)
  case (1 sep)
  then show ?case by simp
next
  case (2 sep c cs)
  show ?case
  proof (cases "prefix sep (c # cs)")
    case True
    then obtain r where r: "c # cs = sep @ r" by (auto simp: prefix_def)
    have nn: "split_js sep (drop (length sep) (c # cs)) \<noteq> []" by (rule split_js_not_Nil)
    then obtain q qs where q: "split_js sep (drop (length sep) (c # cs)) = q # qs"
      by (cases "split_js sep (drop (length sep) (c # cs))") auto
    have "join_js sep (q # qs) = drop (length sep) (c # cs)"
      using 2(1) 2(3) True q by simp
    then have "join_js sep ([] # q # qs) = sep @ drop (length sep) (c # cs)" by simp
    also have "\<dots> = c # cs" using r by simp
    finally show ?thesis using True 2(3) q by simp
  next
    case False
    obtain q qs where q: "split_js sep cs = q # qs"
      using split_js_not_Nil[of sep cs] by (cases "split_js sep cs") auto
    have ih: "join_js sep (q # qs) = cs" using 2(2) 2(3) False q by simp
    have "join_js sep ((c # q) # qs) = c # join_js sep (q # qs)"
      by (cases qs) simp_all
    then show ?thesis using False q ih by simp
  qed
qed

lemma split_parts_subset: "p \<in> set (split_js sep s) \<Longrightarrow> set p \<subseteq> set s"
proof (induction sep s arbitrary: p rule: split_js.induct)
  case (1 sep)
  then show ?case by simp
next
  case (2 sep c cs)
  show ?case
  proof (cases "sep \<noteq> [] \<and> prefix sep (c # cs)")
    case True
    then have "p = [] \<or> p \<in> set (split_js sep (drop (length sep) (c # cs)))"
      using 2(3) by auto
    then show ?thesis
    proof
      assume "p = []" then show ?thesis by simp
    next
      assume "p \<in> set (split_js sep (drop (length sep) (c # cs)))"
      from 2(1)[OF True this] have "set p \<subseteq> set (drop (length sep) (c # cs))" .
      then show ?thesis using set_drop_subset[of "length sep" "c # cs"] by blast
    qed
  next
    case False
    obtain q qs where q: "split_js sep cs = q # qs"
      using split_js_not_Nil[of sep cs] by (cases "split_js sep cs") auto
    have "p = c # q \<or> p \<in> set qs" using 2(3) False q by auto
    then show ?thesis
    proof
      assume "p = c # q"
      moreover have "set q \<subseteq> set cs" using 2(2)[OF False, of q] q by simp
      ultimately show ?thesis by auto
    next
      assume "p \<in> set qs"
      then have "set p \<subseteq> set cs" using 2(2)[OF False, of p] q by simp
      then show ?thesis by auto
    qed
  qed
qed

lemma split_char_parts: "p \<in> set (split_js [c] s) \<Longrightarrow> c \<notin> set p"
proof (induction s arbitrary: p)
  case Nil
  then show ?case by simp
next
  case (Cons a s)
  obtain q qs where q: "split_js [c] s = q # qs"
    using split_js_not_Nil[of "[c]" s] by (cases "split_js [c] s") auto
  show ?case
  proof (cases "a = c")
    case True
    then show ?thesis using Cons by auto
  next
    case False
    then have "p = a # q \<or> p \<in> set qs" using Cons.prems q by auto
    then show ?thesis using Cons.IH[of q] Cons.IH[of p] q False by auto
  qed
qed

lemma set_join_subset: "set (join_js sep ps) \<subseteq> set sep \<union> \<Union> (set ` set ps)"
  by (induction sep ps rule: join_js.induct) auto

lemma join_not_Nil:
  assumes "sep \<noteq> []" and "2 \<le> length ps"
  shows "join_js sep ps \<noteq> []"
proof -
  obtain p q r where "ps = p # q # r"
    using assms(2) by (cases ps; cases "tl ps") auto
  then show ?thesis using assms(1) by simp
qed

lemma join_Cons: "ps \<noteq> [] \<Longrightarrow> join_js sep (p # ps) = p @ sep @ join_js sep ps"
  by (cases ps) simp_all

section \<open>The double hyphen\<close>

lemma split_dd_append:
  assumes "\<not> includes_js p ''--''" and "p = [] \<or> last p \<noteq> CHR ''-''"
  shows "split_js ''--'' (p @ ''--'' @ rest) = p # split_js ''--'' rest"
  using assms
proof (induction p)
  case Nil
  then show ?case by simp
next
  case (Cons c cs)
  have np: "\<not> prefix ''--'' (c # cs)" and ni: "\<not> includes_js cs ''--''"
    using Cons.prems(1) by auto
  have last: "cs = [] \<or> last cs \<noteq> CHR ''-''" using Cons.prems(2) by (auto split: if_splits)
  have npx: "\<not> prefix ''--'' (c # cs @ ''--'' @ rest)"
  proof (cases cs)
    case Nil
    then have "c \<noteq> CHR ''-''" using Cons.prems(2) by simp
    then show ?thesis by simp
  next
    case (Cons d ds)
    then show ?thesis using np by simp
  qed
  have "split_js ''--'' (cs @ ''--'' @ rest) = cs # split_js ''--'' rest"
    using Cons.IH[OF ni last] .
  then show ?case using npx by simp
qed

lemma split_dd_none: "\<not> includes_js p ''--'' \<Longrightarrow> split_js ''--'' p = [p]"
  by (induction p) auto

lemma split_join_dd:
  assumes "ps \<noteq> []"
    and "\<forall>p\<in>set ps. \<not> includes_js p ''--'' \<and> (p = [] \<or> last p \<noteq> CHR ''-'')"
  shows "split_js ''--'' (join_js ''--'' ps) = ps"
  using assms
proof (induction "''--''" ps rule: join_js.induct)
  case 1
  then show ?case by simp
next
  case (2 p)
  then show ?case by (simp add: split_dd_none)
next
  case (3 p q ps)
  have "split_js ''--'' (p @ ''--'' @ join_js ''--'' (q # ps)) = p # split_js ''--'' (join_js ''--'' (q # ps))"
    using 3(3) by (intro split_dd_append) auto
  then show ?case using 3 by simp
qed

section \<open>Replacing dots\<close>

lemma replace_dots_append: "replace_dots (a @ b) = replace_dots a @ replace_dots b"
  by (simp add: replace_dots_def)

lemma replace_dots_id: "CHR ''.'' \<notin> set p \<Longrightarrow> replace_dots p = p"
  by (induction p) (auto simp: replace_dots_def)

lemma replace_dots_join:
  "\<forall>p\<in>set ps. CHR ''.'' \<notin> set p \<Longrightarrow> replace_dots (join_js ''.'' ps) = join_js ''--'' ps"
proof (induction "''.''" ps rule: join_js.induct)
  case 1
  then show ?case by (simp add: replace_dots_def)
next
  case (2 p)
  then show ?case by (simp add: replace_dots_id)
next
  case (3 p q ps)
  have "replace_dots (CHR ''.'' # t) = ''--'' @ replace_dots t" for t
    by (simp add: replace_dots_def)
  then show ?case using 3 by (simp add: replace_dots_append replace_dots_id)
qed

section \<open>Round trips of the codec (C2)\<close>

lemma labelChar_hostChar: "isLabelChar c \<Longrightarrow> isHostChar c"
  by (auto simp: isLabelChar_def isHostChar_def)

lemma labelChar_not_dot: "isLabelChar c \<Longrightarrow> c \<noteq> CHR ''.''"
  by (auto simp: isLabelChar_def isAlpha_def isDigit_def Let_def)

lemma hyphen_labelChar: "isLabelChar (CHR ''-'')"
  by (simp add: isLabelChar_def)

lemma suffix_single: "suffix [c] l \<longleftrightarrow> l \<noteq> [] \<and> last l = c"
  by (cases l rule: rev_cases) (auto simp: suffix_def)

lemma encode_then_decode:
  assumes v: "valid_domain_name d"
    and nd: "\<forall>l\<in>set (split_js ''.'' d). \<not> includes_js l ''--''"
  shows "Option.bind (convertUrlToSubdomain d) convertSubdomainToUrl = Some d"
proof -
  define ls where "ls = split_js ''.'' d"
  have len: "2 \<le> length ls"
    and lab: "\<forall>l\<in>set ls. re_label l \<and> \<not> endsWith l ''-''"
    using v by (auto simp: valid_domain_name_def Let_def ls_def list_all_iff)
  have d: "d = join_js ''.'' ls" by (simp add: ls_def join_split)
  have chars: "\<forall>l\<in>set ls. \<forall>c\<in>set l. isLabelChar c"
    using lab by (auto simp: re_label_def list_all_iff)
  have nodot: "\<forall>l\<in>set ls. CHR ''.'' \<notin> set l"
    using chars labelChar_not_dot by blast
  have dne: "d \<noteq> []" unfolding d using len by (intro join_not_Nil) simp_all
  have "\<forall>c\<in>set d. isHostChar c"
  proof
    fix c assume "c \<in> set d"
    then have "c \<in> set ''.'' \<union> \<Union> (set ` set ls)"
      using set_join_subset[of "''.''" ls] d by auto
    then show "isHostChar c"
      using chars labelChar_hostChar by (auto simp: isHostChar_def)
  qed
  then have host: "re_host d" using dne by (simp add: re_host_def list_all_iff)
  define e where "e = join_js ''--'' ls"
  have enc: "convertUrlToSubdomain d = Some e"
    using dne host nodot by (simp add: convertUrlToSubdomain_def e_def d replace_dots_join)
  have ene: "e \<noteq> []" unfolding e_def using len by (intro join_not_Nil) simp_all
  have "\<forall>c\<in>set e. isLabelChar c"
  proof
    fix c assume "c \<in> set e"
    then have "c \<in> set ''--'' \<union> \<Union> (set ` set ls)"
      using set_join_subset[of "''--''" ls] e_def by auto
    then show "isLabelChar c"
      using chars hyphen_labelChar by auto
  qed
  then have elab: "re_label e" using ene by (simp add: re_label_def list_all_iff)
  have "\<forall>l\<in>set ls. \<not> includes_js l ''--'' \<and> (l = [] \<or> last l \<noteq> CHR ''-'')"
    using lab nd by (auto simp: ls_def endsWith_def suffix_single)
  moreover have "ls \<noteq> []" using len by auto
  ultimately have split: "split_js ''--'' e = ls"
    unfolding e_def by (intro split_join_dd) simp_all
  have nonempty: "\<not> list_ex (\<lambda>part. part = [] \<or> length part = 0) ls"
    using lab by (auto simp: list_ex_iff re_label_def)
  have "convertSubdomainToUrl e = Some (join_js ''.'' ls)"
    using ene elab len nonempty
    by (simp add: convertSubdomainToUrl_def re_label_trim split Let_def)
  then show ?thesis using enc d by simp
qed

lemma decode_then_encode:
  assumes "convertSubdomainToUrl s = Some d"
  shows "convertUrlToSubdomain d = Some (trim s)"
proof -
  define ps where "ps = split_js ''--'' (trim s)"
  have lab: "re_label (trim s)" and len: "2 \<le> length ps" and d: "d = join_js ''.'' ps"
    using assms by (auto simp: convertSubdomainToUrl_def Let_def ps_def split: if_splits)
  have chars: "\<forall>p\<in>set ps. \<forall>c\<in>set p. isLabelChar c"
    using lab split_parts_subset[of _ "''--''" "trim s"]
    by (auto simp: ps_def re_label_def list_all_iff)
  have nodot: "\<forall>p\<in>set ps. CHR ''.'' \<notin> set p"
    using chars labelChar_not_dot by blast
  have dne: "d \<noteq> []" unfolding d using len by (intro join_not_Nil) simp_all
  have "\<forall>c\<in>set d. isHostChar c"
  proof
    fix c assume "c \<in> set d"
    then have "c \<in> set ''.'' \<union> \<Union> (set ` set ps)"
      using set_join_subset[of "''.''" ps] d by auto
    then show "isHostChar c"
      using chars labelChar_hostChar by (auto simp: isHostChar_def)
  qed
  then have host: "re_host d" using dne by (simp add: re_host_def list_all_iff)
  have "replace_dots d = join_js ''--'' ps"
    unfolding d using nodot by (rule replace_dots_join)
  also have "\<dots> = trim s" by (simp add: ps_def join_split)
  finally show ?thesis using dne host by (simp add: convertUrlToSubdomain_def)
qed

lemma valid_format_label:
  assumes "isValidSubdomainFormat s"
  shows "re_label s"
proof -
  define ps where "ps = split_js ''--'' s"
  have len: "2 \<le> length ps" and lab: "\<forall>p\<in>set ps. re_label p"
    using assms by (auto simp: isValidSubdomainFormat_def Let_def ps_def list_all_iff split: if_splits)
  have s: "s = join_js ''--'' ps" by (simp add: ps_def join_split)
  have sne: "s \<noteq> []" unfolding s using len by (intro join_not_Nil) simp_all
  have "\<forall>c\<in>set s. isLabelChar c"
  proof
    fix c assume "c \<in> set s"
    then have "c \<in> set ''--'' \<union> \<Union> (set ` set ps)"
      using set_join_subset[of "''--''" ps] s by auto
    then show "isLabelChar c"
      using lab hyphen_labelChar by (auto simp: re_label_def list_all_iff)
  qed
  then show ?thesis using sne by (simp add: re_label_def list_all_iff)
qed

text \<open>
  Claim C2, as amended. Encoding then decoding gives back every domain name with at least
  two labels, each non-empty, of letters, digits and hyphens, not starting or ending with a
  hyphen, and holding no two hyphens in a row. Decoding then encoding gives back the
  trimmed input for every string the decoder accepts, hence the input itself for every
  string that passes \<^verbatim>\<open>isValidSubdomainFormat\<close>.
\<close>

theorem codec_round_trip:
  "(valid_domain_name d \<and> (\<forall>l\<in>set (split_js ''.'' d). \<not> includes_js l ''--'')
      \<longrightarrow> Option.bind (convertUrlToSubdomain d) convertSubdomainToUrl = Some d)
   \<and> (convertSubdomainToUrl s = Some d' \<longrightarrow> convertUrlToSubdomain d' = Some (trim s))
   \<and> (isValidSubdomainFormat t
      \<longrightarrow> Option.bind (convertSubdomainToUrl t) convertUrlToSubdomain = Some t)"
proof -
  have c: "Option.bind (convertSubdomainToUrl t) convertUrlToSubdomain = Some t"
    if vt: "isValidSubdomainFormat t"
  proof -
    have l: "re_label t" using vt by (rule valid_format_label)
    have dec: "convertSubdomainToUrl t = Some (join_js ''.'' (split_js ''--'' t))"
      using l vt by (rule gate_decodes)
    from decode_then_encode[OF dec] show ?thesis
      using dec by (simp add: re_label_trim[OF l])
  qed
  show ?thesis using encode_then_decode decode_then_encode c by blast
qed

theorem codec_round_trip_witness:
  "valid_domain_name ''api.my-site.com''
   \<and> Option.bind (convertUrlToSubdomain ''api.my-site.com'') convertSubdomainToUrl
       = Some ''api.my-site.com''
   \<and> convertSubdomainToUrl ''  api--my-site--com '' = Some ''api.my-site.com''
   \<and> convertUrlToSubdomain ''api.my-site.com'' = Some ''api--my-site--com''
   \<and> isValidSubdomainFormat ''api--my-site--com''
   \<and> Option.bind (convertSubdomainToUrl ''api--my-site--com'') convertUrlToSubdomain
       = Some ''api--my-site--com''"
proof -
  have v: "valid_domain_name ''api.my-site.com''"
    by (simp add: valid_domain_name_def str_defs)
  have n: "\<forall>l\<in>set (split_js ''.'' ''api.my-site.com''). \<not> includes_js l ''--''"
    by simp
  have dec: "convertSubdomainToUrl ''  api--my-site--com '' = Some ''api.my-site.com''"
    by (simp add: convertSubdomainToUrl_def str_defs)
  have tr: "trim ''  api--my-site--com '' = ''api--my-site--com''"
    by (simp add: str_defs)
  have f: "isValidSubdomainFormat ''api--my-site--com''"
    by (simp add: isValidSubdomainFormat_def str_defs)
  note rt = codec_round_trip[where d = "''api.my-site.com''"
        and s = "''  api--my-site--com ''" and d' = "''api.my-site.com''"
        and t = "''api--my-site--com''"]
  have a: "Option.bind (convertUrlToSubdomain ''api.my-site.com'') convertSubdomainToUrl
             = Some ''api.my-site.com''"
    using rt v n by blast
  have "convertUrlToSubdomain ''api.my-site.com'' = Some (trim ''  api--my-site--com '')"
    using rt dec by blast
  then have b: "convertUrlToSubdomain ''api.my-site.com'' = Some ''api--my-site--com''"
    by (simp only: tr)
  have c: "Option.bind (convertSubdomainToUrl ''api--my-site--com'') convertUrlToSubdomain
             = Some ''api--my-site--com''"
    using rt f by blast
  show ?thesis by (intro conjI v a dec b f c)
qed

text \<open>
  The claim as first stated fails on a label that holds a double hyphen, such as the
  internationalised \<^verbatim>\<open>xn--p1ai.com\<close>, which comes back as \<^verbatim>\<open>xn.p1ai.com\<close>; and on an
  encoded string with white space around it, which the decoder accepts after trimming.
\<close>

theorem codec_round_trip_counterexample:
  "valid_domain_name ''xn--p1ai.com''
   \<and> Option.bind (convertUrlToSubdomain ''xn--p1ai.com'') convertSubdomainToUrl
       = Some ''xn.p1ai.com''
   \<and> Option.bind (convertUrlToSubdomain ''xn--p1ai.com'') convertSubdomainToUrl
       \<noteq> Some ''xn--p1ai.com''
   \<and> convertSubdomainToUrl '' a--b'' = Some ''a.b''
   \<and> Option.bind (convertSubdomainToUrl '' a--b'') convertUrlToSubdomain \<noteq> Some '' a--b''"
  by (simp add: valid_domain_name_def convertUrlToSubdomain_def convertSubdomainToUrl_def
        str_defs)

section \<open>Private addresses (C5)\<close>

lemma digit_not_dot: "isDigit c \<Longrightarrow> c \<noteq> CHR ''.''"
  by (auto simp: isDigit_def Let_def)

lemma toLowerChar_other:
  assumes "c \<notin> set ''ABCDEFGHIJKLMNOPQRSTUVWXYZ''"
  shows "toLowerChar c = c"
proof -
  have "map_of (zip ''ABCDEFGHIJKLMNOPQRSTUVWXYZ'' ''abcdefghijklmnopqrstuvwxyz'') c = None"
    using assms by (simp only: map_of_eq_None_iff) simp
  then show ?thesis by (simp only: toLowerChar_def option.case)
qed

lemma digit_not_upper: "isDigit c \<Longrightarrow> c \<notin> set ''ABCDEFGHIJKLMNOPQRSTUVWXYZ''"
  by (auto simp: isDigit_def Let_def)

lemma toLowerChar_digit: "isDigit c \<or> c = CHR ''.'' \<Longrightarrow> toLowerChar c = c"
  by (auto intro!: toLowerChar_other dest: digit_not_upper)

lemma toLowerCase_digits:
  "\<forall>c\<in>set s. isDigit c \<or> c = CHR ''.'' \<Longrightarrow> toLowerCase s = s"
  by (simp add: toLowerCase_def toLowerChar_digit map_idI)

lemma split_quad:
  assumes "list_all isDigit p0" "list_all isDigit p1" "list_all isDigit p2" "list_all isDigit p3"
  shows "split_js ''.'' (p0 @ ''.'' @ p1 @ ''.'' @ p2 @ ''.'' @ p3) = [p0, p1, p2, p3]"
proof -
  have nd: "CHR ''.'' \<notin> set p" if "list_all isDigit p" for p
    using that digit_not_dot by (auto simp: list_all_iff)
  have "split_js ''.'' (p0 @ CHR ''.'' # p1 @ CHR ''.'' # p2 @ CHR ''.'' # p3)
        = p0 # p1 # p2 # split_js ''.'' p3"
    by (simp add: split_char_append nd assms del: split_js.simps)
  then show ?thesis by (simp add: split_char_none nd assms del: split_js.simps)
qed

lemma ipv4_top8:
  assumes "b \<le> 255" "c \<le> 255" "d \<le> 255"
  shows "ipv4_value a b c d div 2 ^ 24 = a"
proof -
  have "ipv4_value a b c d = (b * 65536 + c * 256 + d) + a * 16777216"
    by (simp add: ipv4_value_def algebra_simps)
  moreover have "b * 65536 + c * 256 + d < 16777216" using assms by simp
  ultimately show ?thesis by simp
qed

lemma ipv4_top16:
  assumes "c \<le> 255" "d \<le> 255"
  shows "ipv4_value a b c d div 2 ^ 16 = a * 256 + b"
proof -
  have "ipv4_value a b c d = (c * 256 + d) + (a * 256 + b) * 65536"
    by (simp add: ipv4_value_def algebra_simps)
  moreover have "c * 256 + d < 65536" using assms by simp
  ultimately show ?thesis by simp
qed

lemma ipv4_top12:
  assumes "c \<le> 255" "d \<le> 255"
  shows "ipv4_value a b c d div 2 ^ 20 = a * 16 + b div 16"
proof -
  have t16: "ipv4_value a b c d div 65536 = a * 256 + b"
    using ipv4_top16[OF assms, of a b] by simp
  have "ipv4_value a b c d div 2 ^ 20 = ipv4_value a b c d div (65536 * 16)" by simp
  also have "\<dots> = ipv4_value a b c d div 65536 div 16" by (rule div_mult2_eq)
  also have "\<dots> = (a * 256 + b) div 16" by (simp only: t16)
  also have "\<dots> = a * 16 + b div 16" by arith
  finally show ?thesis .
qed

lemma ipv4_tops:
  assumes "b \<le> 255" "c \<le> 255" "d \<le> 255"
  shows "ipv4_value a b c d div 16777216 = a"
    and "ipv4_value a b c d div 1048576 = a * 16 + b div 16"
    and "ipv4_value a b c d div 65536 = a * 256 + b"
  using ipv4_top8[OF assms, of a] ipv4_top12[OF assms(2,3), of a b]
    ipv4_top16[OF assms(2,3), of a b]
  by simp_all

lemma split_div_mod:
  fixes a b m n :: nat
  assumes "b < m"
  shows "a * m + b = n \<longleftrightarrow> a = n div m \<and> b = n mod m"
proof
  assume "a * m + b = n"
  then have "n div m = a" "n mod m = b" using assms by auto
  then show "a = n div m \<and> b = n mod m" by simp
next
  assume "a = n div m \<and> b = n mod m"
  then show "a * m + b = n" by simp
qed

lemma cidr_blocks:
  assumes "b \<le> 255" "c \<le> 255" "d \<le> 255"
  shows "in_cidr (ipv4_value a b c d) (ipv4_value 10 0 0 0) 8 \<longleftrightarrow> a = 10"
    and "in_cidr (ipv4_value a b c d) (ipv4_value 172 16 0 0) 12 \<longleftrightarrow> a = 172 \<and> 16 \<le> b \<and> b \<le> 31"
    and "in_cidr (ipv4_value a b c d) (ipv4_value 192 168 0 0) 16 \<longleftrightarrow> a = 192 \<and> b = 168"
    and "in_cidr (ipv4_value a b c d) (ipv4_value 127 0 0 0) 8 \<longleftrightarrow> a = 127"
    and "in_cidr (ipv4_value a b c d) (ipv4_value 169 254 0 0) 16 \<longleftrightarrow> a = 169 \<and> b = 254"
proof -
  have nets: "ipv4_value 10 0 0 0 div 16777216 = 10" "ipv4_value 127 0 0 0 div 16777216 = 127"
    "ipv4_value 192 168 0 0 div 65536 = 49320" "ipv4_value 169 254 0 0 div 65536 = 43518"
    "ipv4_value 172 16 0 0 div 1048576 = 2753"
    by (simp_all add: ipv4_value_def)
  have pw: "(2::nat) ^ (32 - 8) = 16777216" "(2::nat) ^ (32 - 12) = 1048576"
    "(2::nat) ^ (32 - 16) = 65536"
    by simp_all
  note tops = ipv4_tops[OF assms, of a]
  have b256: "b < 256" using assms(1) by simp
  show "in_cidr (ipv4_value a b c d) (ipv4_value 10 0 0 0) 8 \<longleftrightarrow> a = 10"
    by (simp only: in_cidr_def pw tops nets)
  show "in_cidr (ipv4_value a b c d) (ipv4_value 127 0 0 0) 8 \<longleftrightarrow> a = 127"
    by (simp only: in_cidr_def pw tops nets)
  have "a * 256 + b = 49320 \<longleftrightarrow> a = 192 \<and> b = 168"
    using split_div_mod[OF b256, of a 49320] by simp
  then show "in_cidr (ipv4_value a b c d) (ipv4_value 192 168 0 0) 16 \<longleftrightarrow> a = 192 \<and> b = 168"
    by (simp only: in_cidr_def pw tops nets)
  have "a * 256 + b = 43518 \<longleftrightarrow> a = 169 \<and> b = 254"
    using split_div_mod[OF b256, of a 43518] by simp
  then show "in_cidr (ipv4_value a b c d) (ipv4_value 169 254 0 0) 16 \<longleftrightarrow> a = 169 \<and> b = 254"
    by (simp only: in_cidr_def pw tops nets)
  have d16: "b div 16 < 16" using assms(1) by simp
  have one: "b div 16 = 1 \<longleftrightarrow> 16 \<le> b \<and> b \<le> 31" by linarith
  have "a * 16 + b div 16 = 2753 \<longleftrightarrow> a = 172 \<and> 16 \<le> b \<and> b \<le> 31"
    using split_div_mod[OF d16, of a 2753] one by simp
  then show "in_cidr (ipv4_value a b c d) (ipv4_value 172 16 0 0) 12 \<longleftrightarrow> a = 172 \<and> 16 \<le> b \<and> b \<le> 31"
    by (simp only: in_cidr_def pw tops nets)
qed

lemma private_quad_rejected:
  assumes o: "octet p0" "octet p1" "octet p2" "octet p3"
    and h: "hostname u = p0 @ ''.'' @ p1 @ ''.'' @ p2 @ ''.'' @ p3"
    and r: "in_cidr (ipv4_value (Number p0) (Number p1) (Number p2) (Number p3)) (ipv4_value 10 0 0 0) 8
          \<or> in_cidr (ipv4_value (Number p0) (Number p1) (Number p2) (Number p3)) (ipv4_value 172 16 0 0) 12
          \<or> in_cidr (ipv4_value (Number p0) (Number p1) (Number p2) (Number p3)) (ipv4_value 192 168 0 0) 16
          \<or> in_cidr (ipv4_value (Number p0) (Number p1) (Number p2) (Number p3)) (ipv4_value 127 0 0 0) 8
          \<or> in_cidr (ipv4_value (Number p0) (Number p1) (Number p2) (Number p3)) (ipv4_value 169 254 0 0) 16"
  shows "\<not> isPublicUrl u"
proof -
  have dig: "list_all isDigit p0" "list_all isDigit p1" "list_all isDigit p2" "list_all isDigit p3"
    using o by (simp_all add: octet_def)
  have "\<forall>c\<in>set (hostname u). isDigit c \<or> c = CHR ''.''"
    using dig by (auto simp: h list_all_iff)
  then have low: "toLowerCase (hostname u) = hostname u" by (rule toLowerCase_digits)
  have sp: "split_js ''.'' (hostname u) = [p0, p1, p2, p3]"
    unfolding h using dig by (rule split_quad)
  have re: "re_ipv4 (hostname u)"
    using o by (simp add: re_ipv4_def sp octet_def)
  have b: "Number p1 \<le> 255" "Number p2 \<le> 255" "Number p3 \<le> 255"
    using o by (simp_all add: octet_def)
  have "Number p0 = 10
        \<or> (Number p0 = 172 \<and> 16 \<le> Number p1 \<and> Number p1 \<le> 31)
        \<or> (Number p0 = 192 \<and> Number p1 = 168)
        \<or> Number p0 = 127
        \<or> (Number p0 = 169 \<and> Number p1 = 254)"
    using r by (simp only: cidr_blocks[OF b])
  then show ?thesis
    using re by (simp add: isPublicUrl_def low sp)
qed

lemma listed_private_hosts:
  assumes "hostname u \<in> set [''10.1.2.3'', ''172.16.0.5'', ''192.168.1.1'', ''127.0.0.1'',
             ''169.254.1.1'', ''localhost'']"
  shows "\<not> isPublicUrl u"
proof -
  have "\<not> isPublicUrl u" if "hostname u = ''10.1.2.3''"
    using that by (simp add: isPublicUrl_def str_defs)
  moreover have "\<not> isPublicUrl u" if "hostname u = ''172.16.0.5''"
    using that by (simp add: isPublicUrl_def str_defs)
  moreover have "\<not> isPublicUrl u" if "hostname u = ''192.168.1.1''"
    using that by (simp add: isPublicUrl_def str_defs)
  moreover have "\<not> isPublicUrl u" if "hostname u = ''127.0.0.1''"
    using that by (simp add: isPublicUrl_def str_defs)
  moreover have "\<not> isPublicUrl u" if "hostname u = ''169.254.1.1''"
    using that by (simp add: isPublicUrl_def str_defs)
  moreover have "\<not> isPublicUrl u" if "hostname u = ''localhost''"
    using that by (simp add: isPublicUrl_def str_defs)
  ultimately show ?thesis using assms by auto
qed

lemma listed_public_hosts:
  assumes "hostname u \<in> set [''93.184.216.34'', ''example.com'']"
  shows "isPublicUrl u"
proof -
  have "isPublicUrl u" if "hostname u = ''93.184.216.34''"
    using that by (simp add: isPublicUrl_def str_defs)
  moreover have "isPublicUrl u" if "hostname u = ''example.com''"
    using that by (simp add: isPublicUrl_def str_defs)
  ultimately show ?thesis using assms by auto
qed

text \<open>
  Claim C5. \<^verbatim>\<open>isPublicUrl\<close> is false for a URL whose host name is \<^verbatim>\<open>10.1.2.3\<close>,
  \<^verbatim>\<open>172.16.0.5\<close>, \<^verbatim>\<open>192.168.1.1\<close>, \<^verbatim>\<open>127.0.0.1\<close>, \<^verbatim>\<open>169.254.1.1\<close> or \<^verbatim>\<open>localhost\<close>, and true for
  \<^verbatim>\<open>93.184.216.34\<close> and \<^verbatim>\<open>example.com\<close>. It is false for every host name written as four
  decimal numbers of one to three digits, each at most 255, whose address lies in
  \<^verbatim>\<open>10.0.0.0/8\<close>, \<^verbatim>\<open>172.16.0.0/12\<close>, \<^verbatim>\<open>192.168.0.0/16\<close>, \<^verbatim>\<open>127.0.0.0/8\<close> or \<^verbatim>\<open>169.254.0.0/16\<close>.
\<close>

theorem private_addresses_rejected:
  "(hostname u \<in> set [''10.1.2.3'', ''172.16.0.5'', ''192.168.1.1'', ''127.0.0.1'',
                        ''169.254.1.1'', ''localhost''] \<longrightarrow> \<not> isPublicUrl u)
   \<and> (hostname u \<in> set [''93.184.216.34'', ''example.com''] \<longrightarrow> isPublicUrl u)
   \<and> (octet oa \<and> octet ob \<and> octet oc \<and> octet od
        \<and> hostname u = oa @ ''.'' @ ob @ ''.'' @ oc @ ''.'' @ od
        \<and> (in_cidr (ipv4_value (Number oa) (Number ob) (Number oc) (Number od))
                (ipv4_value 10 0 0 0) 8
           \<or> in_cidr (ipv4_value (Number oa) (Number ob) (Number oc) (Number od))
                (ipv4_value 172 16 0 0) 12
           \<or> in_cidr (ipv4_value (Number oa) (Number ob) (Number oc) (Number od))
                (ipv4_value 192 168 0 0) 16
           \<or> in_cidr (ipv4_value (Number oa) (Number ob) (Number oc) (Number od))
                (ipv4_value 127 0 0 0) 8
           \<or> in_cidr (ipv4_value (Number oa) (Number ob) (Number oc) (Number od))
                (ipv4_value 169 254 0 0) 16)
      \<longrightarrow> \<not> isPublicUrl u)"
  using listed_private_hosts[of u] listed_public_hosts[of u]
    private_quad_rejected[of oa ob oc od u]
  by blast

theorem private_addresses_rejected_witness:
  "octet ''172'' \<and> octet ''31'' \<and> octet ''255'' \<and> octet ''254''
   \<and> in_cidr (ipv4_value (Number ''172'') (Number ''31'') (Number ''255'') (Number ''254''))
        (ipv4_value 172 16 0 0) 12
   \<and> \<not> isPublicUrl \<lparr>protocol = ''http:'', hostname = ''172.31.255.254'', port = [],
                       pathname = ''/'', search = [], hash = []\<rparr>
   \<and> \<not> isPublicUrl \<lparr>protocol = ''http:'', hostname = ''10.1.2.3'', port = [],
                       pathname = ''/'', search = [], hash = []\<rparr>
   \<and> isPublicUrl \<lparr>protocol = ''https:'', hostname = ''example.com'', port = [],
                     pathname = ''/'', search = [], hash = []\<rparr>"
proof -
  have o: "octet ''172''" "octet ''31''" "octet ''255''" "octet ''254''"
    by (simp_all add: octet_def isDigit_def Number_def)
  have n: "Number ''172'' = 172" "Number ''31'' = 31" "Number ''255'' = 255" "Number ''254'' = 254"
    by (simp_all add: Number_def)
  have c: "in_cidr (ipv4_value (Number ''172'') (Number ''31'') (Number ''255'') (Number ''254''))
             (ipv4_value 172 16 0 0) 12"
    by (simp add: n in_cidr_def ipv4_value_def)
  have a: "\<not> isPublicUrl \<lparr>protocol = ''http:'', hostname = ''172.31.255.254'', port = [],
                       pathname = ''/'', search = [], hash = []\<rparr>"
    using o c private_addresses_rejected[where oa = "''172''" and ob = "''31''"
        and oc = "''255''" and od = "''254''"
        and u = "\<lparr>protocol = ''http:'', hostname = ''172.31.255.254'', port = [],
                       pathname = ''/'', search = [], hash = []\<rparr>"]
    by simp
  have b: "\<not> isPublicUrl \<lparr>protocol = ''http:'', hostname = ''10.1.2.3'', port = [],
                       pathname = ''/'', search = [], hash = []\<rparr>"
    using private_addresses_rejected[where
        u = "\<lparr>protocol = ''http:'', hostname = ''10.1.2.3'', port = [],
                       pathname = ''/'', search = [], hash = []\<rparr>"]
    by simp
  have d: "isPublicUrl \<lparr>protocol = ''https:'', hostname = ''example.com'', port = [],
                     pathname = ''/'', search = [], hash = []\<rparr>"
    using private_addresses_rejected[where
        u = "\<lparr>protocol = ''https:'', hostname = ''example.com'', port = [],
                     pathname = ''/'', search = [], hash = []\<rparr>"]
    by simp
  show ?thesis by (intro conjI o c a b d)
qed

end
